theory Spec2Isabelle
  imports Main "HOL-Library.Sublist" "HOL-Library.Product_Lexorder" "HOL-Library.AList"
begin

section \<open>Python values used by the Plan Collector and the Frequency Analyzer\<close>

text \<open>
  A Python \<open>str\<close> is modelled as a \<open>string\<close>, every \<open>char\<close> standing for one code
  point below 256. Numbers that \<open>json.load\<close> reads as floats are never inspected by the
  program, only carried from the input to the output, so their type is left opaque.
  A \<open>JObj\<close> holds the items of a dict in their order; as in a dict, a key occurs once.
\<close>

typedecl float64

datatype json =
    JNull
  | JBool bool
  | JInt int
  | JFloat float64
  | JStr string
  | JArr "json list"
  | JObj "(string \<times> json) list"

text \<open>
  The exceptions the program can meet; all of them are subclasses of \<open>Exception\<close>.
  The text of an exception, \<open>str(e)\<close>, is not modelled.
\<close>

datatype exn =
    OSError
  | JSONDecodeError
  | KeyError string
  | TypeError
  | AttributeError
  | ValueError
  | UnicodeEncodeError

subsection \<open>Strings\<close>

text \<open>\<open>str.isspace\<close> on one code point below 256.\<close>

definition is_space :: "char \<Rightarrow> bool" where
  "is_space c = (of_char c \<in> {9, 10, 11, 12, 13, 28, 29, 30, 31, 32, 133, 160 :: nat})"

text \<open>\<open>s.strip()\<close>\<close>

definition strip :: "string \<Rightarrow> string" where
  "strip s = rev (dropWhile is_space (rev (dropWhile is_space s)))"

text \<open>\<open>sub in s\<close> for two strings\<close>

fun py_in :: "string \<Rightarrow> string \<Rightarrow> bool" where
  "py_in sub [] = (sub = [])"
| "py_in sub (c # cs) = (prefix sub (c # cs) \<or> py_in sub cs)"

text \<open>\<open>s.split(sep)\<close> with a one-character separator\<close>

fun split :: "char \<Rightarrow> string \<Rightarrow> string list" where
  "split sep [] = [[]]"
| "split sep (c # cs) =
     (if c = sep then [] # split sep cs
      else (case split sep cs of p # ps \<Rightarrow> (c # p) # ps | [] \<Rightarrow> [[c]]))"

definition is_digit :: "char \<Rightarrow> bool" where
  "is_digit c = (c \<in> set ''0123456789'')"

definition digit_val :: "char \<Rightarrow> nat" where
  "digit_val c = of_char c - 48"

text \<open>The value of a run of decimal digits.\<close>

definition digits_val :: "string \<Rightarrow> nat" where
  "digits_val s = foldl (\<lambda>a c. 10 * a + digit_val c) 0 s"

subsection \<open>Access to parsed JSON\<close>

text \<open>\<open>v[key]\<close> with a string key: only a dict can be subscripted by a string.\<close>

fun getitem :: "json \<Rightarrow> string \<Rightarrow> exn + json" where
  "getitem (JObj kvs) k = (case map_of kvs k of None \<Rightarrow> Inl (KeyError k) | Some v \<Rightarrow> Inr v)"
| "getitem v k = Inl TypeError"

text \<open>\<open>v.get(key, default)\<close>: only a dict has the method.\<close>

fun get_default :: "json \<Rightarrow> string \<Rightarrow> json \<Rightarrow> exn + json" where
  "get_default (JObj kvs) k d = (case map_of kvs k of None \<Rightarrow> Inr d | Some v \<Rightarrow> Inr v)"
| "get_default v k d = Inl AttributeError"

text \<open>
  \<open>for x in v\<close>: a list yields its elements, a dict its keys, a string its characters;
  nothing else is iterable.
\<close>

fun iter :: "json \<Rightarrow> exn + json list" where
  "iter (JArr xs) = Inr xs"
| "iter (JObj kvs) = Inr (map (\<lambda>kv. JStr (fst kv)) kvs)"
| "iter (JStr s) = Inr (map (\<lambda>c. JStr [c]) s)"
| "iter v = Inl TypeError"

text \<open>\<open>v.strip()\<close>: only a string has the method.\<close>

fun strip_method :: "json \<Rightarrow> exn + string" where
  "strip_method (JStr s) = Inr (strip s)"
| "strip_method v = Inl AttributeError"

section \<open>Timestamps\<close>

text \<open>A naive \<open>datetime\<close>. Python compares two of them field by field, in this order.\<close>

record datetime =
  year :: nat
  month :: nat
  day :: nat
  hour :: nat
  minute :: nat
  second :: nat
  microsecond :: nat

definition dt_key :: "datetime \<Rightarrow> nat \<times> nat \<times> nat \<times> nat \<times> nat \<times> nat \<times> nat" where
  "dt_key t = (year t, month t, day t, hour t, minute t, second t, microsecond t)"

definition is_leap :: "nat \<Rightarrow> bool" where
  "is_leap y = (y mod 4 = 0 \<and> (y mod 100 \<noteq> 0 \<or> y mod 400 = 0))"

definition days_in_month :: "nat \<Rightarrow> nat \<Rightarrow> nat" where
  "days_in_month y m =
     (if m = 2 then (if is_leap y then 29 else 28)
      else if m \<in> {4, 6, 9, 11} then 30 else 31)"

text \<open>The constructor \<open>datetime(year, month, day, hour, minute, second, microsecond)\<close>.\<close>

definition datetime_new :: "nat \<Rightarrow> nat \<Rightarrow> nat \<Rightarrow> nat \<Rightarrow> nat \<Rightarrow> nat \<Rightarrow> nat \<Rightarrow> exn + datetime" where
  "datetime_new y mo d h mi s us =
     (if 1 \<le> y \<and> y \<le> 9999 \<and> 1 \<le> mo \<and> mo \<le> 12 \<and> 1 \<le> d \<and> d \<le> days_in_month y mo
         \<and> h < 24 \<and> mi < 60 \<and> s < 60 \<and> us < 1000000
      then Inr \<lparr>year = y, month = mo, day = d, hour = h, minute = mi, second = s,
                microsecond = us\<rparr>
      else Inl ValueError)"

text \<open>
  The text before the first character that satisfies \<open>p\<close>, and the text after that
  character.
\<close>

fun until :: "(char \<Rightarrow> bool) \<Rightarrow> string \<Rightarrow> (string \<times> string) option" where
  "until p [] = None"
| "until p (c # cs) =
     (if p c then Some ([], cs)
      else (case until p cs of None \<Rightarrow> None | Some (a, b) \<Rightarrow> Some (c # a, b)))"

text \<open>Cutting at one separator after the other; the last field is what is left.\<close>

fun cuts :: "(char \<Rightarrow> bool) list \<Rightarrow> string \<Rightarrow> string list option" where
  "cuts [] s = Some [s]"
| "cuts (p # ps) s =
     (case until p s of
        None \<Rightarrow> None
      | Some (a, b) \<Rightarrow> (case cuts ps b of None \<Rightarrow> None | Some fs \<Rightarrow> Some (a # fs)))"

text \<open>
  The regular expressions by which \<open>strptime\<close> recognises the directives \<open>%Y\<close>,
  \<open>%m\<close>, \<open>%d\<close>, \<open>%H\<close>, \<open>%M\<close>, \<open>%S\<close> and \<open>%f\<close>, each as a test of a whole field:
  \<open>\d\d\d\d\<close>, \<open>1[0-2]|0[1-9]|[1-9]\<close>, \<open>3[0-1]|[1-2]\d|0[1-9]|[1-9]| [1-9]\<close>,
  \<open>2[0-3]|[0-1]\d|\d\<close>, \<open>[0-5]\d|\d\<close>, \<open>6[0-1]|[0-5]\d|\d\<close> and \<open>[0-9]{1,6}\<close>.
\<close>

definition re_Y :: "string \<Rightarrow> bool" where
  "re_Y s = (length s = 4 \<and> list_all is_digit s)"

definition re_m :: "string \<Rightarrow> bool" where
  "re_m s = (case s of
       [a] \<Rightarrow> a \<in> set ''123456789''
     | [a, b] \<Rightarrow> (a = CHR ''1'' \<and> b \<in> set ''012'') \<or> (a = CHR ''0'' \<and> b \<in> set ''123456789'')
     | _ \<Rightarrow> False)"

definition re_d :: "string \<Rightarrow> bool" where
  "re_d s = (case s of
       [a] \<Rightarrow> a \<in> set ''123456789''
     | [a, b] \<Rightarrow> (a = CHR ''3'' \<and> b \<in> set ''01'') \<or> (a \<in> set ''12'' \<and> is_digit b)
               \<or> (a \<in> set ''0 '' \<and> b \<in> set ''123456789'')
     | _ \<Rightarrow> False)"

definition re_H :: "string \<Rightarrow> bool" where
  "re_H s = (case s of
       [a] \<Rightarrow> is_digit a
     | [a, b] \<Rightarrow> (a = CHR ''2'' \<and> b \<in> set ''0123'') \<or> (a \<in> set ''01'' \<and> is_digit b)
     | _ \<Rightarrow> False)"

definition re_M :: "string \<Rightarrow> bool" where
  "re_M s = (case s of
       [a] \<Rightarrow> is_digit a
     | [a, b] \<Rightarrow> a \<in> set ''012345'' \<and> is_digit b
     | _ \<Rightarrow> False)"

definition re_S :: "string \<Rightarrow> bool" where
  "re_S s = (case s of
       [a] \<Rightarrow> is_digit a
     | [a, b] \<Rightarrow> (a = CHR ''6'' \<and> b \<in> set ''01'') \<or> (a \<in> set ''012345'' \<and> is_digit b)
     | _ \<Rightarrow> False)"

definition re_f :: "string \<Rightarrow> bool" where
  "re_f s = (1 \<le> length s \<and> length s \<le> 6 \<and> list_all is_digit s)"

text \<open>
  \<open>datetime.strptime(s, "%Y-%m-%dT%H:%M:%S.%fZ")\<close>. The whole of \<open>s\<close> has to match
  the format; the letters \<open>T\<close> and \<open>Z\<close> of the format match without regard to case.
  No field can contain the separator that follows it, so the fields are found by cutting
  at the separators. A fraction of fewer than six digits is padded with zeros on the
  right. The date and the time are then checked by the \<open>datetime\<close> constructor.
\<close>

definition strptime :: "string \<Rightarrow> exn + datetime" where
  "strptime s =
     (case cuts [\<lambda>c. c = CHR ''-'', \<lambda>c. c = CHR ''-'', \<lambda>c. c \<in> set ''Tt'', \<lambda>c. c = CHR '':'',
                 \<lambda>c. c = CHR '':'', \<lambda>c. c = CHR ''.'', \<lambda>c. c \<in> set ''Zz''] s of
        Some [Y, m, d, H, M, S, f, rest] \<Rightarrow>
          if rest = [] \<and> re_Y Y \<and> re_m m \<and> re_d d \<and> re_H H \<and> re_M M \<and> re_S S \<and> re_f f
          then datetime_new (digits_val Y) (digits_val m) (digits_val (filter is_digit d))
                 (digits_val H) (digits_val M) (digits_val S)
                 (digits_val (f @ replicate (6 - length f) (CHR ''0'')))
          else Inl ValueError
      | _ \<Rightarrow> Inl ValueError)"

text \<open>
  \<open>parse_timestamp\<close>. Unpacking \<open>split('.')\<close> into two names raises \<open>ValueError\<close>
  unless there is exactly one dot; \<open>replace('Z', '')\<close> removes every \<open>Z\<close>.
\<close>

definition parse_timestamp :: "string \<Rightarrow> exn + datetime" where
  "parse_timestamp timestamp_str =
     (if CHR ''.'' \<in> set timestamp_str then
        (case split (CHR ''.'') timestamp_str of
           [main_part, fractional] \<Rightarrow>
             strptime (main_part @ ''.'' @ take 6 (filter (\<lambda>c. c \<noteq> CHR ''Z'') fractional) @ ''Z'')
         | _ \<Rightarrow> Inl ValueError)
      else strptime timestamp_str)"

text \<open>
  \<open>parse_timestamp\<close> applied to a value read from JSON. A value that is not a string
  always raises: \<open>'.' in v\<close> raises for a number, a boolean and \<open>None\<close>; for a list or
  a dict it is a test of membership, after which either \<open>v.split\<close> or \<open>strptime\<close>
  fails.
\<close>

fun parse_timestamp_value :: "json \<Rightarrow> exn + datetime" where
  "parse_timestamp_value (JStr s) = parse_timestamp s"
| "parse_timestamp_value (JArr xs) = (if JStr ''.'' \<in> set xs then Inl AttributeError else Inl TypeError)"
| "parse_timestamp_value (JObj kvs) =
     (if ''.'' \<in> set (map fst kvs) then Inl AttributeError else Inl TypeError)"
| "parse_timestamp_value v = Inl TypeError"

text \<open>
  \<open>str(t)\<close> for a \<open>datetime\<close>: \<open>%04d-%02d-%02d %02d:%02d:%02d\<close>, followed by
  \<open>.%06d\<close> when the microseconds are not zero. Every field of a \<open>datetime\<close> is below
  the power of ten of its width, so each field has exactly that many digits.
\<close>

definition zero_padded :: "nat \<Rightarrow> nat \<Rightarrow> string" where
  "zero_padded w n = map (\<lambda>i. ''0123456789'' ! ((n div 10 ^ (w - 1 - i)) mod 10)) [0..<w]"

definition str_datetime :: "datetime \<Rightarrow> string" where
  "str_datetime t =
     zero_padded 4 (year t) @ ''-'' @ zero_padded 2 (month t) @ ''-'' @ zero_padded 2 (day t)
     @ '' '' @ zero_padded 2 (hour t) @ '':'' @ zero_padded 2 (minute t) @ '':''
     @ zero_padded 2 (second t)
     @ (if microsecond t \<noteq> 0 then ''.'' @ zero_padded 6 (microsecond t) else [])"


section \<open>The Plan Collector (parsecreature.py)\<close>

text \<open>Sequencing of two steps of which the first may raise.\<close>

definition bind_exn :: "exn + 'a \<Rightarrow> ('a \<Rightarrow> exn + 'b) \<Rightarrow> exn + 'b" where
  "bind_exn m f = (case m of Inl e \<Rightarrow> Inl e | Inr x \<Rightarrow> f x)"

subsection \<open>The console\<close>

text \<open>
  An entry of \<open>errors\<close> is one of the two formatted strings of \<open>parse_all_plans\<close>, kept
  as the format it was made by: \<open>Error_processing p e\<close> stands for
  \<open>f"Error processing {p}: {str(e)}"\<close> and \<open>Directory_error e\<close> for
  \<open>f"Directory error: {str(e)}"\<close>.
\<close>

datatype error_entry =
    Error_processing string exn
  | Directory_error exn

text \<open>
  The texts that the Collector prints while it parses, each kept as its format and
  the values put into it: \<open>f"Found {len(directories)} directories"\<close>,
  \<open>f"\nProcessing directory: {dir_path.name}"\<close>, \<open>f"Found {len(json_files)} JSON files"\<close>,
  \<open>f"Processing file: {file_path.name}"\<close>,
  \<open>f"Error processing thought in {plan_path.name}: {str(e)}"\<close>,
  \<open>f"Error processing file {plan_path}: {str(e)}"\<close> and \<open>error_msg\<close>.
\<close>

datatype message =
    Found_directories nat
  | Processing_directory string
  | Found_JSON_files nat
  | Processing_file string
  | Error_processing_thought string exn
  | Error_processing_file string exn
  | Error_message error_entry

text \<open>
  A call of \<open>print\<close> can raise, for one when the standard output cannot encode
  the line. A console tells for every message which exception \<open>print\<close> raises on
  it, if any.
\<close>

type_synonym console = "message \<Rightarrow> exn option"

definition print :: "console \<Rightarrow> message \<Rightarrow> exn + unit" where
  "print console m = (case console m of None \<Rightarrow> Inr () | Some e \<Rightarrow> Inl e)"

subsection \<open>\<open>should_exclude_content\<close>\<close>

record ThoughtData =
  timestamp :: datetime
  content :: string
  real_time_factors :: json
  relevance_score :: json
  confidence_score :: json

definition excluded_content :: "string list" where
  "excluded_content = [''Exploring system dynamics and adaptation patterns'', ''plan_'']"

definition should_exclude_content :: "string \<Rightarrow> bool" where
  "should_exclude_content content' =
     list_ex (\<lambda>excluded. py_in excluded content') excluded_content"

subsection \<open>\<open>parse_single_plan\<close>\<close>

text \<open>
  The body of the inner \<open>try\<close>: the construction of a \<open>ThoughtData\<close>, its arguments
  evaluated from left to right.
\<close>

definition thought_data :: "json \<Rightarrow> exn + ThoughtData" where
  "thought_data thought =
     bind_exn (getitem thought ''timestamp'') (\<lambda>ts.
     bind_exn (parse_timestamp_value ts) (\<lambda>t.
     bind_exn (getitem thought ''content'') (\<lambda>cv.
     bind_exn (strip_method cv) (\<lambda>c.
     bind_exn (getitem thought ''real_time_factors'') (\<lambda>f.
     bind_exn (getitem thought ''relevance_score'') (\<lambda>rs.
     bind_exn (getitem thought ''confidence_score'') (\<lambda>cs.
       Inr \<lparr>timestamp = t, content = c, real_time_factors = f, relevance_score = rs,
            confidence_score = cs\<rparr>)))))))"

text \<open>
  One pass through the body of the loop over the thoughts of a file; \<open>file\<close> is
  \<open>plan_path.name\<close>. The test of the content stands before the inner \<open>try\<close>, so an
  exception it raises leaves the loop (\<open>Inl\<close>). A thought with excluded content is
  skipped (\<open>Inr None\<close>). When the inner \<open>try\<close> raises, its handler prints the
  exception: if that \<open>print\<close> raises, its exception leaves the loop, otherwise the
  thought is skipped. In all other cases the \<open>ThoughtData\<close> is appended to \<open>thoughts\<close>
  (\<open>Inr (Some _)\<close>).
\<close>

definition collect_thought :: "console \<Rightarrow> string \<Rightarrow> json \<Rightarrow> exn + ThoughtData option" where
  "collect_thought console file thought =
     bind_exn (getitem thought ''content'') (\<lambda>cv.
     bind_exn (strip_method cv) (\<lambda>c.
       if should_exclude_content c then Inr None
       else (case thought_data thought of
               Inl e \<Rightarrow>
                 bind_exn (print console (Error_processing_thought file e)) (\<lambda>_. Inr None)
             | Inr thought_data' \<Rightarrow> Inr (Some thought_data'))))"

text \<open>The loop; the last argument is the list \<open>thoughts\<close> built so far.\<close>

fun collect_thoughts ::
  "console \<Rightarrow> string \<Rightarrow> json list \<Rightarrow> ThoughtData list \<Rightarrow> exn + ThoughtData list" where
  "collect_thoughts console file [] thoughts = Inr thoughts"
| "collect_thoughts console file (thought # rest) thoughts =
     bind_exn (collect_thought console file thought) (\<lambda>r.
       collect_thoughts console file rest
         (case r of None \<Rightarrow> thoughts | Some t \<Rightarrow> thoughts @ [t]))"

text \<open>\<open>thoughts.sort(key=lambda x: x.timestamp)\<close>: a stable sort.\<close>

definition sort_thoughts :: "ThoughtData list \<Rightarrow> ThoughtData list" where
  "sort_thoughts thoughts = sort_key (\<lambda>x. dt_key (timestamp x)) thoughts"

text \<open>One entry of the list \<open>"thoughts"\<close> of the returned dict.\<close>

record thought_dict =
  d_timestamp :: string
  d_content :: string
  d_real_time_factors :: json
  d_relevance_score :: json
  d_confidence_score :: json

definition thought_entry :: "ThoughtData \<Rightarrow> thought_dict" where
  "thought_entry t =
     \<lparr>d_timestamp = str_datetime (timestamp t), d_content = content t,
      d_real_time_factors = real_time_factors t, d_relevance_score = relevance_score t,
      d_confidence_score = confidence_score t\<rparr>"

text \<open>The dict that \<open>parse_single_plan\<close> returns; a missing \<open>"id"\<close> gives \<open>None\<close>.\<close>

record plan_document =
  plan_id :: json
  folder :: string
  file_name :: string
  thoughts :: "thought_dict list"

text \<open>
  A JSON file of a directory as the program meets it: its name, and what \<open>open\<close>
  followed by \<open>json.load\<close> gives, a parsed value or an exception.
\<close>

record json_file =
  name :: string
  loaded :: "exn + json"

text \<open>
  The first part of the body of the outer \<open>try\<close>: the file is loaded and the loop
  collects its thoughts. The result is \<open>plan_data\<close> with the list \<open>thoughts\<close> as it
  stands after the loop.
\<close>

definition surviving_thoughts :: "console \<Rightarrow> json_file \<Rightarrow> exn + json \<times> ThoughtData list" where
  "surviving_thoughts console plan_path =
     bind_exn (loaded plan_path) (\<lambda>plan_data.
     bind_exn (get_default plan_data ''thoughts'' (JArr [])) (\<lambda>ths.
     bind_exn (iter ths) (\<lambda>items.
     bind_exn (collect_thoughts console (name plan_path) items []) (\<lambda>thoughts'.
       Inr (plan_data, thoughts')))))"

text \<open>
  The body of the outer \<open>try\<close>: the thoughts are sorted and the dict is built if any
  is left. \<open>parent\<close> is \<open>plan_path.parent.name\<close>.
\<close>

definition parse_single_plan_try ::
  "console \<Rightarrow> string \<Rightarrow> json_file \<Rightarrow> exn + plan_document option" where
  "parse_single_plan_try console parent plan_path =
     bind_exn (surviving_thoughts console plan_path) (\<lambda>(plan_data, thoughts').
       if sort_thoughts thoughts' \<noteq> []
       then bind_exn (get_default plan_data ''id'' JNull) (\<lambda>ident.
              Inr (Some \<lparr>plan_id = ident, folder = parent, file_name = name plan_path,
                          thoughts = map thought_entry (sort_thoughts thoughts')\<rparr>))
       else Inr None)"

text \<open>
  \<open>parse_single_plan\<close>: the handler of the outer \<open>try\<close> prints the exception with the
  path of the file and returns \<open>None\<close>; if that \<open>print\<close> raises, its exception leaves
  the function. \<open>dir_path\<close> is the path of the directory of the file as a string.
\<close>

definition parse_single_plan ::
  "console \<Rightarrow> string \<Rightarrow> string \<Rightarrow> json_file \<Rightarrow> exn + plan_document option" where
  "parse_single_plan console dir_path parent plan_path =
     (case parse_single_plan_try console parent plan_path of
        Inl e \<Rightarrow>
          bind_exn (print console (Error_processing_file (dir_path @ ''/'' @ name plan_path) e))
            (\<lambda>_. Inr None)
      | Inr result \<Rightarrow> Inr result)"

subsection \<open>\<open>create_condensed_output\<close>\<close>

text \<open>
  The Full Aggregate. A Python dict keeps its keys in the order of their first insertion
  and assigning to a key that is present replaces the value in place, which is what
  \<^const>\<open>AList.update\<close> does on an association list.
\<close>

record metadata =
  total_directories :: nat
  total_plans :: nat
  base_directory :: string
  processed_at :: string

record full_aggregate =
  plans :: "(string \<times> (string \<times> plan_document) list) list"
  metadata :: metadata
  errors :: "error_entry list"

text \<open>An element of the condensed list: the dict with the keys \<open>"c"\<close> and \<open>"r"\<close>.\<close>

record short_record =
  short_c :: string
  short_r :: json

definition create_condensed_output :: "full_aggregate \<Rightarrow> short_record list" where
  "create_condensed_output all_plans =
     concat (map (\<lambda>dir_plans.
       concat (map (\<lambda>plan_data.
         map (\<lambda>thought. \<lparr>short_c = strip (d_content thought),
                          short_r = d_real_time_factors thought\<rparr>)
           (filter (\<lambda>thought. strip (d_content thought)
                                \<noteq> ''Exploring system dynamics and adaptation patterns'')
              (thoughts plan_data)))
         (map snd dir_plans)))
       (map snd (plans all_plans)))"

subsection \<open>\<open>parse_all_plans\<close>\<close>

text \<open>
  \<open>int(s)\<close> for a string. White space around the number is skipped (the ASCII white
  space of C, and the two further space characters below 256, which are first turned into
  blanks); then come an optional sign and decimal digits, single underscores being
  allowed between digits. The limit of 4300 digits that \<open>int\<close> puts on a string is out
  of reach for the name of a directory.
\<close>

definition is_int_space :: "char \<Rightarrow> bool" where
  "is_int_space c = (of_char c \<in> {9, 10, 11, 12, 13, 32, 133, 160 :: nat})"

fun int_digits :: "string \<Rightarrow> bool" where
  "int_digits [] = False"
| "int_digits [c] = is_digit c"
| "int_digits (c # d # cs) =
     (is_digit c \<and> (if d = CHR ''_'' then int_digits cs else int_digits (d # cs)))"

definition py_int :: "string \<Rightarrow> exn + int" where
  "py_int s =
     (let t = rev (dropWhile is_int_space (rev (dropWhile is_int_space s)));
          body = (case t of [] \<Rightarrow> [] | c # cs \<Rightarrow> if c \<in> set ''+-'' then cs else t)
      in if int_digits body
         then Inr ((if take 1 t = ''-'' then - 1 else 1)
                    * int (digits_val (filter (\<lambda>c. c \<noteq> CHR ''_'') body)))
         else Inl ValueError)"

text \<open>
  An entry of the input directory as the program meets it: its name, the answer of
  \<open>is_dir()\<close>, and the result of \<open>glob('*.json')\<close> on it; the last two may raise.
\<close>

record dir_entry =
  dir_name :: string
  is_dir :: "exn + bool"
  glob_json :: "exn + json_file list"

text \<open>\<open>[d for d in entries if d.is_dir()]\<close>\<close>

fun select_dirs :: "dir_entry list \<Rightarrow> exn + dir_entry list" where
  "select_dirs [] = Inr []"
| "select_dirs (d # ds) =
     bind_exn (is_dir d) (\<lambda>b.
     bind_exn (select_dirs ds) (\<lambda>rest. Inr (if b then d # rest else rest)))"

text \<open>
  \<open>directories.sort(key=lambda x: int(x.name))\<close>: the keys of all elements are
  computed first, in the order of the list; then the list is sorted stably.
\<close>

fun int_keys :: "dir_entry list \<Rightarrow> exn + (int \<times> dir_entry) list" where
  "int_keys [] = Inr []"
| "int_keys (d # ds) =
     bind_exn (py_int (dir_name d)) (\<lambda>k.
     bind_exn (int_keys ds) (\<lambda>rest. Inr ((k, d) # rest)))"

definition sort_directories :: "dir_entry list \<Rightarrow> exn + dir_entry list" where
  "sort_directories directories =
     bind_exn (int_keys directories) (\<lambda>keyed. Inr (map snd (sort_key fst keyed)))"

text \<open>
  One pass through the body of the loop over the files of a directory, on the pair of
  \<open>dir_plans\<close> and \<open>errors\<close>: the new pair, and the exception that leaves the loop, if
  any. An exception of the \<open>try\<close>, be it of the \<open>print\<close> or of \<open>parse_single_plan\<close>,
  is handled: \<open>error_msg\<close> is printed and appended to \<open>errors\<close>. An exception of that
  \<open>print\<close> leaves the loop before anything is appended. \<open>dir_path\<close> is the path of
  the directory as a string.
\<close>

definition process_file ::
  "console \<Rightarrow> string \<Rightarrow> string \<Rightarrow> json_file
     \<Rightarrow> (string \<times> plan_document) list \<times> error_entry list
     \<Rightarrow> ((string \<times> plan_document) list \<times> error_entry list) \<times> exn option" where
  "process_file console dir_path parent file_path st =
     (case bind_exn (print console (Processing_file (name file_path)))
             (\<lambda>_. parse_single_plan console dir_path parent file_path) of
        Inr None \<Rightarrow> (st, None)
      | Inr (Some plan_data) \<Rightarrow>
          ((AList.update (name file_path) plan_data (fst st), snd st), None)
      | Inl e \<Rightarrow>
          (case print console
                  (Error_message (Error_processing (dir_path @ ''/'' @ name file_path) e)) of
             Inl e' \<Rightarrow> (st, Some e')
           | Inr _ \<Rightarrow>
               ((fst st, snd st @ [Error_processing (dir_path @ ''/'' @ name file_path) e]),
                None)))"

text \<open>The loop over the files of a directory.\<close>

fun process_files ::
  "console \<Rightarrow> string \<Rightarrow> string \<Rightarrow> json_file list
     \<Rightarrow> (string \<times> plan_document) list \<times> error_entry list
     \<Rightarrow> ((string \<times> plan_document) list \<times> error_entry list) \<times> exn option" where
  "process_files console dir_path parent [] st = (st, None)"
| "process_files console dir_path parent (file_path # rest) st =
     (case process_file console dir_path parent file_path st of
        (st', None) \<Rightarrow> process_files console dir_path parent rest st'
      | (st', Some e) \<Rightarrow> (st', Some e))"

text \<open>
  One pass through the body of the loop over the directories, on the pair of
  \<open>all_plans\<close> and \<open>errors\<close>. An exception of a \<open>print\<close>, of \<open>glob\<close> or of the loop
  over the files leaves the loop; \<open>all_plans\<close> stays as it is, \<open>errors\<close> keeps what
  was appended.
\<close>

definition process_directory ::
  "console \<Rightarrow> string \<Rightarrow> dir_entry
     \<Rightarrow> (string \<times> (string \<times> plan_document) list) list \<times> error_entry list
     \<Rightarrow> ((string \<times> (string \<times> plan_document) list) list \<times> error_entry list) \<times> exn option" where
  "process_directory console base d st =
     (case bind_exn (print console (Processing_directory (dir_name d))) (\<lambda>_.
           bind_exn (glob_json d) (\<lambda>json_files.
           bind_exn (print console (Found_JSON_files (length json_files))) (\<lambda>_.
             Inr json_files))) of
        Inl e \<Rightarrow> (st, Some e)
      | Inr json_files \<Rightarrow>
          (case process_files console (base @ ''/'' @ dir_name d) (dir_name d) json_files
                  ([], snd st) of
             ((dir_plans, errs'), Some e) \<Rightarrow> ((fst st, errs'), Some e)
           | ((dir_plans, errs'), None) \<Rightarrow>
               ((if dir_plans \<noteq> [] then AList.update (dir_name d) dir_plans (fst st)
                 else fst st, errs'), None)))"

text \<open>The loop over the directories.\<close>

fun process_directories ::
  "console \<Rightarrow> string \<Rightarrow> dir_entry list
     \<Rightarrow> (string \<times> (string \<times> plan_document) list) list \<times> error_entry list
     \<Rightarrow> ((string \<times> (string \<times> plan_document) list) list \<times> error_entry list) \<times> exn option" where
  "process_directories console base [] st = (st, None)"
| "process_directories console base (d # ds) st =
     (case process_directory console base d st of
        (st', None) \<Rightarrow> process_directories console base ds st'
      | (st', Some e) \<Rightarrow> (st', Some e))"

text \<open>
  The body of the \<open>try\<close> of \<open>parse_all_plans\<close>, from the empty \<open>all_plans\<close> and
  \<open>errors\<close>: the state at the end, and the exception that ended it, if any.
  \<open>listing\<close> is what \<open>iterdir()\<close> on the input directory gives.
\<close>

definition parse_all_plans_try ::
  "console \<Rightarrow> string \<Rightarrow> exn + dir_entry list
     \<Rightarrow> ((string \<times> (string \<times> plan_document) list) list \<times> error_entry list) \<times> exn option" where
  "parse_all_plans_try console base listing =
     (case bind_exn listing (\<lambda>entries.
           bind_exn (select_dirs entries) (\<lambda>dirs.
           bind_exn (sort_directories dirs) (\<lambda>directories.
           bind_exn (print console (Found_directories (length directories))) (\<lambda>_.
             Inr directories)))) of
        Inl e \<Rightarrow> (([], []), Some e)
      | Inr directories \<Rightarrow> process_directories console base directories ([], []))"

text \<open>
  \<open>parse_all_plans\<close>. \<open>base\<close> is \<open>str(self.plans_directory)\<close> and \<open>now\<close> is
  \<open>datetime.now().isoformat()\<close>.
\<close>

definition parse_all_plans :: "console \<Rightarrow> string \<Rightarrow> string \<Rightarrow> exn + dir_entry list
     \<Rightarrow> full_aggregate \<times> short_record list" where
  "parse_all_plans console base now listing =
     (case parse_all_plans_try console base listing of
        ((all_plans, errs), raised) \<Rightarrow>
          (let results =
             \<lparr>plans = all_plans,
              metadata = \<lparr>total_directories = length all_plans,
                          total_plans = sum_list (map (\<lambda>kv. length (snd kv)) all_plans),
                          base_directory = base, processed_at = now\<rparr>,
              errors = errs @ (case raised of None \<Rightarrow> [] | Some e \<Rightarrow> [Directory_error e])\<rparr>
           in (results, create_condensed_output results)))"

section \<open>The Frequency Analyzer (chunkanalyzer.py)\<close>

text \<open>
  A \<open>Counter\<close> is a dict from keys to counts, here in the order of first insertion.
  \<open>counter[k] += 1\<close> reads a missing key as 0.
\<close>

type_synonym counter = "(string \<times> nat) list"

definition incr :: "string \<Rightarrow> counter \<Rightarrow> counter" where
  "incr k counter = AList.update k (case map_of counter k of None \<Rightarrow> 1 | Some n \<Rightarrow> n + 1) counter"

text \<open>The inner loop of \<open>analyze_file\<close>, on \<open>factor_counter\<close>.\<close>

fun count_factors :: "json list \<Rightarrow> counter \<Rightarrow> exn + counter" where
  "count_factors [] factor_counter = Inr factor_counter"
| "count_factors (factor # rest) factor_counter =
     bind_exn (strip_method factor) (\<lambda>k. count_factors rest (incr k factor_counter))"

text \<open>The outer loop, on the pair of \<open>content_counter\<close> and \<open>factor_counter\<close>.\<close>

fun count_thoughts :: "json list \<Rightarrow> counter \<times> counter \<Rightarrow> exn + counter \<times> counter" where
  "count_thoughts [] st = Inr st"
| "count_thoughts (thought # rest) (content_counter, factor_counter) =
     bind_exn (getitem thought ''c'') (\<lambda>cv.
     bind_exn (strip_method cv) (\<lambda>k.
     bind_exn (getitem thought ''r'') (\<lambda>rv.
     bind_exn (iter rv) (\<lambda>factors.
     bind_exn (count_factors factors factor_counter) (\<lambda>factor_counter'.
       count_thoughts rest (incr k content_counter, factor_counter'))))))"

text \<open>
  \<open>analyze_file\<close>, from two empty counters. \<open>input_file\<close> is what \<open>open\<close> followed by
  \<open>json.load\<close> gives. No exception is handled: the run ends with it.
\<close>

definition analyze_file :: "exn + json \<Rightarrow> exn + counter \<times> counter" where
  "analyze_file input_file =
     bind_exn input_file (\<lambda>data.
     bind_exn (iter data) (\<lambda>items. count_thoughts items ([], [])))"

text \<open>
  \<open>sorted(items, key=..., reverse=True)\<close>: the list is reversed, sorted stably in
  ascending order and reversed again.
\<close>

definition sorted_reverse :: "('a \<Rightarrow> 'k::linorder) \<Rightarrow> 'a list \<Rightarrow> 'a list" where
  "sorted_reverse key xs = rev (sort_key key (rev xs))"

text \<open>\<open>dict(pairs)\<close>: the pairs are inserted one after the other.\<close>

definition dict_of :: "('k \<times> 'v) list \<Rightarrow> ('k \<times> 'v) list" where
  "dict_of pairs = foldl (\<lambda>d kv. AList.update (fst kv) (snd kv) d) [] pairs"

record frequency_report =
  content_counts :: counter
  factor_counts :: counter

text \<open>The dict \<open>results\<close> that \<open>save_results\<close> writes.\<close>

definition save_results :: "counter \<times> counter \<Rightarrow> frequency_report" where
  "save_results counters =
     \<lparr>content_counts = dict_of (sorted_reverse snd (fst counters)),
      factor_counts = dict_of (sorted_reverse snd (snd counters))\<rparr>"

text \<open>
  The Short Aggregate as the Analyzer reads it back from the file that the Collector
  has written with \<open>json.dump\<close>.
\<close>

definition short_aggregate_json :: "short_record list \<Rightarrow> json" where
  "short_aggregate_json condensed =
     JArr (map (\<lambda>x. JObj [(''c'', JStr (short_c x)), (''r'', short_r x)]) condensed)"

section \<open>Sample inputs\<close>

text \<open>
  A well-formed observation with the given timestamp and content, and a file and a
  directory listing to put it in; they serve as concrete inputs below.
\<close>

definition sample_thought :: "string \<Rightarrow> string \<Rightarrow> json" where
  "sample_thought ts c =
     JObj [(''timestamp'', JStr ts), (''content'', JStr c),
           (''real_time_factors'', JArr [JStr ''a'', JStr ''b'']),
           (''relevance_score'', JInt 1), (''confidence_score'', JInt 0)]"

definition sample_file :: "string \<Rightarrow> json list \<Rightarrow> json_file" where
  "sample_file file ths = \<lparr>name = file, loaded = Inr (JObj [(''id'', JStr ''p1''), (''thoughts'', JArr ths)])\<rparr>"

definition sample_dir :: "string \<Rightarrow> json_file list \<Rightarrow> dir_entry" where
  "sample_dir d files = \<lparr>dir_name = d, is_dir = Inr True, glob_json = Inr files\<rparr>"

text \<open>
  Two directories, listed out of numeric order. The second thought of \<open>a.json\<close> and the
  only thought of \<open>b.json\<close> have excluded content.
\<close>

definition sample_listing :: "exn + dir_entry list" where
  "sample_listing =
     Inr [sample_dir ''10''
            [sample_file ''c.json'' [sample_thought ''2024-01-01T00:00:03.5Z'' ''later'']],
          sample_dir ''9''
            [sample_file ''a.json''
               [sample_thought ''2024-01-01T00:00:00.5Z'' '' hello '',
                sample_thought ''2024-01-01T00:00:01.5Z'' ''a plan_x''],
             sample_file ''b.json'' [sample_thought ''2024-01-01T00:00:02.5Z'' ''plan_y'']]]"

text \<open>
  Three consoles: one on which every \<open>print\<close> succeeds; a standard output that
  cannot encode the path of the input directory, so that the two messages that show
  the full path of a file are refused; and one that refuses the message about a thought.
\<close>

definition quiet :: console where
  "quiet m = None"

fun path_refused :: console where
  "path_refused (Error_processing_file p e) = Some UnicodeEncodeError"
| "path_refused (Error_message em) = Some UnicodeEncodeError"
| "path_refused m = None"

fun thought_error_refused :: console where
  "thought_error_refused (Error_processing_thought file e) = Some UnicodeEncodeError"
| "thought_error_refused m = None"

section \<open>Basic facts\<close>

lemma bind_exn_Inl [simp]: "bind_exn (Inl e) f = Inl e"
  by (simp add: bind_exn_def)

lemma bind_exn_Inr [simp]: "bind_exn (Inr x) f = f x"
  by (simp add: bind_exn_def)

lemma bind_exn_eq_Inr: "bind_exn m f = Inr y \<longleftrightarrow> (\<exists>x. m = Inr x \<and> f x = Inr y)"
  by (cases m) simp_all

lemma print_quiet [simp]: "print quiet m = Inr ()"
  by (simp add: print_def quiet_def)

lemma print_Inr_iff: "print console m = Inr u \<longleftrightarrow> console m = None"
  by (simp add: print_def split: option.split)

lemma print_Inl_iff: "print console m = Inl e \<longleftrightarrow> console m = Some e"
  by (simp add: print_def split: option.split)

lemma replicate_numeral: "replicate (numeral k) x = x # replicate (pred_numeral k) x"
  by (simp add: numeral_eq_Suc)

lemmas timestamp_eval =
  replicate_numeral parse_timestamp_def strptime_def re_Y_def re_m_def re_d_def re_H_def re_M_def re_S_def
  re_f_def is_digit_def digits_val_def digit_val_def datetime_new_def days_in_month_def
  is_leap_def

lemmas content_eval = strip_def is_space_def should_exclude_content_def excluded_content_def

lemmas sample_defs = sample_thought_def sample_file_def sample_dir_def sample_listing_def

lemmas collector_eval =
  parse_all_plans_def parse_all_plans_try_def sort_directories_def py_int_def is_int_space_def
  process_directory_def process_file_def
  parse_single_plan_def parse_single_plan_try_def surviving_thoughts_def collect_thought_def
  thought_data_def
  sort_thoughts_def thought_entry_def str_datetime_def zero_padded_def upt_rec dt_key_def
  create_condensed_output_def Let_def print_def

section \<open>A directory name that is not an integer\<close>

lemma select_dirs_mem:
  "select_dirs entries = Inr ds \<Longrightarrow> d \<in> set entries \<Longrightarrow> is_dir d = Inr True \<Longrightarrow> d \<in> set ds"
proof (induction entries arbitrary: ds)
  case Nil
  then show ?case by simp
next
  case (Cons a entries)
  from Cons.prems(1) obtain b rest where
    b: "is_dir a = Inr b" and rest: "select_dirs entries = Inr rest"
    and ds: "ds = (if b then a # rest else rest)"
    by (auto simp: bind_exn_eq_Inr)
  show ?case
  proof (cases "d = a")
    case True
    then show ?thesis using b ds Cons.prems(3) by simp
  next
    case False
    then have "d \<in> set rest" using Cons.IH [OF rest] Cons.prems by simp
    then show ?thesis using ds by simp
  qed
qed

lemma int_keys_raises:
  "d \<in> set ds \<Longrightarrow> py_int (dir_name d) = Inl e \<Longrightarrow> \<exists>e'. int_keys ds = Inl e'"
proof (induction ds)
  case Nil
  then show ?case by simp
next
  case (Cons a ds)
  show ?case
  proof (cases "py_int (dir_name a)")
    case (Inl x)
    then show ?thesis by simp
  next
    case (Inr k)
    then have "d \<in> set ds" using Cons.prems by auto
    then obtain e' where "int_keys ds = Inl e'" using Cons.IH Cons.prems(2) by blast
    then show ?thesis using Inr by simp
  qed
qed

lemma py_int_abc: "py_int ''abc'' = Inl ValueError"
  by (simp add: py_int_def is_int_space_def is_digit_def)

text \<open>
  C10. If the input directory can be listed and one of its subdirectories has a name
  that \<open>int\<close> rejects, then, whatever the console, no directory is processed: the
  Full Aggregate has an empty \<open>plans\<close>, \<open>total_directories\<close> 0, \<open>total_plans\<close> 0
  and exactly one error, made by the handler of the directory level, and the Short
  Aggregate is empty.
\<close>

theorem non_integer_directory_name:
  assumes "listing = Inr entries" and "d \<in> set entries" and "is_dir d = Inr True"
    and "py_int (dir_name d) = Inl ValueError"
  shows "\<exists>e. parse_all_plans console base now listing =
           (\<lparr>plans = [],
             metadata = \<lparr>total_directories = 0, total_plans = 0, base_directory = base,
                         processed_at = now\<rparr>,
             errors = [Directory_error e]\<rparr>, [])"
proof -
  let ?announce = "\<lambda>directories.
    bind_exn (print console (Found_directories (length directories))) (\<lambda>_. Inr directories)"
  have "\<exists>e. bind_exn (select_dirs entries) (\<lambda>dirs. bind_exn (sort_directories dirs) ?announce)
      = Inl e"
  proof (cases "select_dirs entries")
    case (Inl e)
    then show ?thesis by simp
  next
    case (Inr ds)
    then have "d \<in> set ds" using select_dirs_mem assms by blast
    then obtain e' where "int_keys ds = Inl e'" using int_keys_raises assms(4) by blast
    then show ?thesis using Inr by (simp add: sort_directories_def)
  qed
  then obtain e where
    "bind_exn (select_dirs entries) (\<lambda>dirs. bind_exn (sort_directories dirs) ?announce) = Inl e"
    by blast
  then have "parse_all_plans_try console base listing = (([], []), Some e)"
    using assms(1) by (simp add: parse_all_plans_try_def)
  then show ?thesis
    by (simp add: parse_all_plans_def Let_def create_condensed_output_def)
qed

theorem non_integer_directory_name_witness:
  "py_int ''abc'' = Inl ValueError \<and>
   (\<exists>e. parse_all_plans quiet ''/plans'' ''2026-01-01T00:00:00''
      (Inr [sample_dir ''1''
              [sample_file ''a.json'' [sample_thought ''2024-01-01T00:00:00.5Z'' ''hello'']],
            sample_dir ''abc'' []]) =
     (\<lparr>plans = [],
       metadata = \<lparr>total_directories = 0, total_plans = 0, base_directory = ''/plans'',
                   processed_at = ''2026-01-01T00:00:00''\<rparr>,
       errors = [Directory_error e]\<rparr>, []))"
  using non_integer_directory_name
    [of "Inr [sample_dir ''1''
                [sample_file ''a.json'' [sample_thought ''2024-01-01T00:00:00.5Z'' ''hello'']],
              sample_dir ''abc'' []]"
        "[sample_dir ''1''
            [sample_file ''a.json'' [sample_thought ''2024-01-01T00:00:00.5Z'' ''hello'']],
          sample_dir ''abc'' []]"
        "sample_dir ''abc'' []" quiet "''/plans''" "''2026-01-01T00:00:00''"]
    py_int_abc
  by (simp add: sample_dir_def)

section \<open>What \<open>parse_timestamp\<close> does with the fraction\<close>

text \<open>
  With one dot in the string, the digits after it are cut after the sixth: the digits
  beyond are dropped, not rounded. Without a dot the string goes to \<open>strptime\<close> as it
  is, whose format asks for the dot, so that no such string is accepted.
\<close>

lemma split_no_sep: "sep \<notin> set s \<Longrightarrow> split sep s = [s]"
  by (induction s) auto

lemma split_one_sep: "sep \<notin> set a \<Longrightarrow> sep \<notin> set b \<Longrightarrow> split sep (a @ sep # b) = [a, b]"
  by (induction a) (auto simp: split_no_sep)

lemma parse_timestamp_fraction:
  assumes "CHR ''.'' \<notin> set main_part" and "CHR ''.'' \<notin> set fractional"
  shows "parse_timestamp (main_part @ ''.'' @ fractional) =
           strptime (main_part @ ''.'' @ take 6 (filter (\<lambda>c. c \<noteq> CHR ''Z'') fractional) @ ''Z'')"
  using split_one_sep [OF assms] by (simp add: parse_timestamp_def)

lemma parse_timestamp_truncates:
  assumes "CHR ''.'' \<notin> set main_part" and "CHR ''.'' \<notin> set digits"
    and "CHR ''Z'' \<notin> set digits"
  shows "parse_timestamp (main_part @ ''.'' @ digits @ ''Z'') =
           parse_timestamp (main_part @ ''.'' @ take 6 digits @ ''Z'')"
proof -
  have f: "filter (\<lambda>c. c \<noteq> CHR ''Z'') ds = ds" if "CHR ''Z'' \<notin> set ds" for ds
    using that by (induction ds) auto
  have "CHR ''Z'' \<notin> set (take 6 digits)" "CHR ''.'' \<notin> set (take 6 digits)"
    using assms by (auto dest: in_set_takeD)
  then show ?thesis
    using assms parse_timestamp_fraction [of main_part "digits @ ''Z''"]
      parse_timestamp_fraction [of main_part "take 6 digits @ ''Z''"]
    by (simp add: f)
qed

lemma until_rest: "until p s = Some (a, b) \<Longrightarrow> set b \<subseteq> set s"
  by (induction s arbitrary: a) (auto split: if_splits option.splits)

lemma until_absent: "\<forall>c \<in> set s. \<not> p c \<Longrightarrow> until p s = None"
  by (induction s) auto

lemma cuts_absent:
  "CHR ''.'' \<notin> set s \<Longrightarrow> (\<lambda>c. c = CHR ''.'') \<in> set ps \<Longrightarrow> cuts ps s = None"
proof (induction ps arbitrary: s)
  case Nil
  then show ?case by simp
next
  case (Cons p ps)
  show ?case
  proof (cases "until p s")
    case None
    then show ?thesis by simp
  next
    case (Some ab)
    obtain a b where ab: "ab = (a, b)" by (cases ab)
    have nb: "CHR ''.'' \<notin> set b" using until_rest Some ab Cons.prems(1) by blast
    have "p \<noteq> (\<lambda>c. c = CHR ''.'')"
    proof
      assume "p = (\<lambda>c. c = CHR ''.'')"
      then have "until p s = None" using Cons.prems(1) by (intro until_absent) auto
      then show False using Some by simp
    qed
    then have "(\<lambda>c. c = CHR ''.'') \<in> set ps" using Cons.prems(2) by auto
    from Cons.IH [OF nb this] show ?thesis using Some ab by simp
  qed
qed

lemma parse_timestamp_no_fraction:
  assumes "CHR ''.'' \<notin> set timestamp_str"
  shows "parse_timestamp timestamp_str = Inl ValueError"
proof -
  have "cuts [\<lambda>c. c = CHR ''-'', \<lambda>c. c = CHR ''-'', \<lambda>c. c \<in> set ''Tt'', \<lambda>c. c = CHR '':'',
                 \<lambda>c. c = CHR '':'', \<lambda>c. c = CHR ''.'', \<lambda>c. c \<in> set ''Zz''] timestamp_str = None"
    using assms by (rule cuts_absent) simp
  then show ?thesis using assms by (simp add: parse_timestamp_def strptime_def)
qed

text \<open>
  An observation with a string content for which the inner \<open>try\<close> raises is skipped
  when the exception can be printed, and the loop treats the other observations as if it
  were not there.
\<close>

lemma malformed_observation_skipped:
  assumes "getitem thought ''content'' = Inr (JStr c)" and "thought_data thought = Inl e"
    and "console (Error_processing_thought file e) = None"
  shows "collect_thoughts console file (before @ thought # after) acc
           = collect_thoughts console file (before @ after) acc"
proof -
  have "collect_thought console file thought = Inr None"
    using assms by (simp add: collect_thought_def print_def)
  then show ?thesis
    by (induction before arbitrary: acc) (simp_all add: bind_exn_def split: sum.splits)
qed

section \<open>Behaviour at particular inputs\<close>

text \<open>
  C2. A timestamp without a fractional part is not accepted: the format given to
  \<open>strptime\<close> demands the dot and the fraction, so \<open>2024-01-01T00:00:01Z\<close> raises
  \<open>ValueError\<close>, while the same instant written with a fraction is parsed.
\<close>

theorem timestamp_without_fraction:
  "parse_timestamp ''2024-01-01T00:00:01Z'' = Inl ValueError \<and>
   parse_timestamp ''2024-01-01T00:00:01.0Z'' =
     Inr \<lparr>year = 2024, month = 1, day = 1, hour = 0, minute = 0, second = 1, microsecond = 0\<rparr>"
  by (simp add: timestamp_eval)

text \<open>
  C3. An observation without the field \<open>content\<close> takes the whole file with it: on a
  console where every \<open>print\<close> succeeds, the file of a well-formed observation
  followed by one that lacks \<open>content\<close> gives \<open>None\<close>, although the well-formed
  observation alone gives a Plan Document.
\<close>

theorem missing_content_drops_file:
  "parse_single_plan quiet ''/plans/1'' ''1''
     (sample_file ''a.json''
        [sample_thought ''2024-01-01T00:00:00.5Z'' ''hello'',
         JObj [(''timestamp'', JStr ''2024-01-01T00:00:01.5Z''),
               (''real_time_factors'', JArr []),
               (''relevance_score'', JInt 1), (''confidence_score'', JInt 1)]]) = Inr None
   \<and> parse_single_plan quiet ''/plans/1'' ''1''
     (sample_file ''a.json'' [sample_thought ''2024-01-01T00:00:00.5Z'' ''hello'']) =
     Inr (Some \<lparr>plan_id = JStr ''p1'', folder = ''1'', file_name = ''a.json'',
                 thoughts = [\<lparr>d_timestamp = ''2024-01-01 00:00:00.500000'',
                              d_content = ''hello'',
                              d_real_time_factors = JArr [JStr ''a'', JStr ''b''],
                              d_relevance_score = JInt 1, d_confidence_score = JInt 0\<rparr>]\<rparr>)"
  by (simp add: sample_defs collector_eval content_eval timestamp_eval quiet_def)

text \<open>
  C4. A file that \<open>json.load\<close> rejects leaves no trace in the Full Aggregate: on a
  console where every \<open>print\<close> succeeds the run goes on, but its \<open>errors\<close> stay
  empty.
\<close>

theorem unreadable_file_not_in_errors:
  "parse_all_plans quiet ''/plans'' ''2026-01-01T00:00:00''
     (Inr [sample_dir ''1'' [\<lparr>name = ''a.json'', loaded = Inl JSONDecodeError\<rparr>]]) =
   (\<lparr>plans = [],
     metadata = \<lparr>total_directories = 0, total_plans = 0, base_directory = ''/plans'',
                 processed_at = ''2026-01-01T00:00:00''\<rparr>,
     errors = []\<rparr>, [])"
  by (simp add: sample_defs collector_eval is_digit_def digits_val_def digit_val_def quiet_def)

text \<open>
  When the message about a thought cannot be printed, the exception of \<open>print\<close>
  leaves the loop and the file is lost with all its observations.
\<close>

lemma unprintable_thought_error_drops_file:
  "parse_single_plan thought_error_refused ''/plans/1'' ''1''
     (sample_file ''a.json''
        [sample_thought ''2024-01-01T00:00:00.5Z'' ''hello'',
         sample_thought ''2024-01-01T00:00:01Z'' ''no fraction'']) = Inr None"
  by (simp add: sample_defs collector_eval content_eval timestamp_eval)

section \<open>Strings and the loop over the thoughts\<close>

lemma py_in_sublist: "py_in sub s \<longleftrightarrow> sublist sub s"
  by (induction s) (auto simp: sublist_Cons_right)

lemma py_in_iff: "py_in sub s \<longleftrightarrow> (\<exists>before after. s = before @ sub @ after)"
  by (simp add: py_in_sublist sublist_def)



lemma dropWhile_strip: "dropWhile is_space (strip s) = strip s"
proof (cases "dropWhile is_space s")
  case Nil
  show ?thesis by (simp add: strip_def Nil)
next
  case (Cons x xs)
  then have nx: "\<not> is_space x" by (metis hd_dropWhile list.sel(1) list.distinct(1))
  have "dropWhile is_space (rev xs @ [x]) = dropWhile is_space (rev xs) @ [x]"
    using nx by (simp add: dropWhile_append)
  then have "strip s = x # rev (dropWhile is_space (rev xs))"
    using Cons by (simp add: strip_def)
  then show ?thesis using nx by simp
qed

lemma strip_strip [simp]: "strip (strip s) = strip s"
proof -
  have "strip (strip s) = rev (dropWhile is_space (rev (strip s)))"
    by (simp add: strip_def [of "strip s"] dropWhile_strip)
  also have "\<dots> = strip s"
    by (simp add: strip_def)
  finally show ?thesis .
qed



lemma collect_thoughts_closed:
  "map (collect_thought console file) items = map Inr rs \<Longrightarrow>
     collect_thoughts console file items acc = Inr (acc @ [t. Some t \<leftarrow> rs])"
proof (induction items arbitrary: acc rs)
  case Nil
  then show ?case by simp
next
  case (Cons item items)
  then obtain r rs' where rs: "rs = r # rs'" and r: "collect_thought console file item = Inr r"
    and rest: "map (collect_thought console file) items = map Inr rs'"
    by (cases rs) auto
  show ?case using Cons.IH [OF rest] r rs by (cases r) simp_all
qed

lemma collect_thoughts_Inr:
  "collect_thoughts console file items acc = Inr ts \<Longrightarrow>
     \<exists>rs. map (collect_thought console file) items = map Inr rs \<and> ts = acc @ [t. Some t \<leftarrow> rs]"
proof (induction items arbitrary: acc)
  case Nil
  then show ?case by simp
next
  case (Cons item items)
  from Cons.prems obtain r where r: "collect_thought console file item = Inr r"
    and rest: "collect_thoughts console file items (case r of None \<Rightarrow> acc | Some t \<Rightarrow> acc @ [t]) = Inr ts"
    by (auto simp: bind_exn_eq_Inr)
  from Cons.IH [OF rest] obtain rs where
    "map (collect_thought console file) items = map Inr rs"
    "ts = (case r of None \<Rightarrow> acc | Some t \<Rightarrow> acc @ [t]) @ [t. Some t \<leftarrow> rs]"
    by blast
  then have "map (collect_thought console file) (item # items) = map Inr (r # rs)
      \<and> ts = acc @ [t. Some t \<leftarrow> r # rs]"
    using r by (cases r) simp_all
  then show ?case by blast
qed

section \<open>The result of \<open>parse_single_plan\<close>\<close>

lemma surviving_thoughts_dict:
  "surviving_thoughts console f = Inr (pd, ts) \<Longrightarrow> \<exists>kvs. pd = JObj kvs"
  by (auto simp: surviving_thoughts_def bind_exn_eq_Inr elim!: get_default.elims)

lemma sort_thoughts_Nil [simp]: "sort_thoughts ts = [] \<longleftrightarrow> ts = []"
  by (metis length_0_conv length_sort sort_thoughts_def)

lemma parse_single_plan_Some_iff:
  "parse_single_plan console dir_path parent f = Inr (Some doc) \<longleftrightarrow>
     (\<exists>pd ts ident. surviving_thoughts console f = Inr (pd, ts) \<and> ts \<noteq> []
        \<and> get_default pd ''id'' JNull = Inr ident
        \<and> doc = \<lparr>plan_id = ident, folder = parent, file_name = name f,
                  thoughts = map thought_entry (sort_thoughts ts)\<rparr>)"
proof (cases "surviving_thoughts console f")
  case (Inl e)
  then show ?thesis
    by (simp add: parse_single_plan_def parse_single_plan_try_def bind_exn_eq_Inr)
next
  case (Inr p)
  obtain pd ts where p: "p = (pd, ts)" by (cases p)
  obtain kvs where pd: "pd = JObj kvs" using surviving_thoughts_dict Inr p by blast
  show ?thesis
    using Inr p pd
    by (auto simp: parse_single_plan_def parse_single_plan_try_def split: option.splits)
qed

lemma dt_key_eq_iff: "dt_key a = dt_key b \<longleftrightarrow> a = b"
  by (cases a, cases b) (auto simp: dt_key_def)

lemma surviving_thoughts_Inr_iff:
  "surviving_thoughts console f = Inr (pd, ts) \<longleftrightarrow>
     (\<exists>ths items. loaded f = Inr pd \<and> get_default pd ''thoughts'' (JArr []) = Inr ths
        \<and> iter ths = Inr items \<and> collect_thoughts console (name f) items [] = Inr ts)"
  by (auto simp: surviving_thoughts_def bind_exn_eq_Inr)

text \<open>
  C5. Let \<open>parse_single_plan\<close> return a Plan Document for a file. Then the file was
  loaded, its observations \<open>items\<close> were all passed by the loop, with the results \<open>rs\<close>
  in the order of the file, and the thoughts of the document are the surviving ones,
  sorted by their parsed timestamps: the timestamps are non-decreasing along the list (in
  the order in which Python compares two \<open>datetime\<close>s), and the thoughts that share a
  timestamp stand in the order in which their observations stand in the file.
\<close>

theorem thoughts_sorted_stably:
  assumes "parse_single_plan console dir_path parent f = Inr (Some doc)"
  shows "\<exists>pd ths items rs.
           loaded f = Inr pd \<and> get_default pd ''thoughts'' (JArr []) = Inr ths
           \<and> iter ths = Inr items
           \<and> map (collect_thought console (name f)) items = map Inr rs
           \<and> thoughts doc = map thought_entry (sort_thoughts [t. Some t \<leftarrow> rs])
           \<and> sorted (map (\<lambda>t. dt_key (timestamp t)) (sort_thoughts [t. Some t \<leftarrow> rs]))
           \<and> (\<forall>k. filter (\<lambda>t. timestamp t = k) (sort_thoughts [t. Some t \<leftarrow> rs])
                    = [t. Some t \<leftarrow> rs, timestamp t = k])"
proof -
  from assms obtain pd ts where s: "surviving_thoughts console f = Inr (pd, ts)"
    and d: "thoughts doc = map thought_entry (sort_thoughts ts)"
    by (auto simp: parse_single_plan_Some_iff)
  from s obtain ths items where l: "loaded f = Inr pd"
    and g: "get_default pd ''thoughts'' (JArr []) = Inr ths" and i: "iter ths = Inr items"
    and c: "collect_thoughts console (name f) items [] = Inr ts"
    unfolding surviving_thoughts_Inr_iff by blast
  from collect_thoughts_Inr [OF c] obtain rs where
    m: "map (collect_thought console (name f)) items = map Inr rs"
    and ts: "ts = [t. Some t \<leftarrow> rs]"
    by auto
  have sorted: "sorted (map (\<lambda>t. dt_key (timestamp t)) (sort_thoughts ts))"
    by (simp add: sort_thoughts_def)
  have "filter (\<lambda>t. timestamp t = k) (sort_thoughts ts) = filter (\<lambda>t. timestamp t = k) ts"
    for k
    using sort_key_stable [of "\<lambda>x. dt_key (timestamp x)" "dt_key k" ts]
    by (simp add: sort_thoughts_def dt_key_eq_iff)
  moreover have "filter (\<lambda>t. timestamp t = k) [t. Some t \<leftarrow> rs]
      = [t. Some t \<leftarrow> rs, timestamp t = k]" for k
    by (induction rs) (auto split: option.splits)
  ultimately have stable: "\<forall>k. filter (\<lambda>t. timestamp t = k) (sort_thoughts ts)
      = [t. Some t \<leftarrow> rs, timestamp t = k]"
    using ts by simp
  show ?thesis
    using l g i m d sorted stable unfolding ts by blast
qed

lemma sample_sorted_eval:
  "parse_single_plan quiet ''/plans/1'' ''1''
     (sample_file ''a.json''
        [sample_thought ''2024-01-01T00:00:02.5Z'' ''late'',
         sample_thought ''2024-01-01T00:00:01.5Z'' ''first of two'',
         sample_thought ''2024-01-01T00:00:01.500000999Z'' ''second of two'']) =
   Inr (Some \<lparr>plan_id = JStr ''p1'', folder = ''1'', file_name = ''a.json'',
               thoughts =
                 [\<lparr>d_timestamp = ''2024-01-01 00:00:01.500000'', d_content = ''first of two'',
                   d_real_time_factors = JArr [JStr ''a'', JStr ''b''],
                   d_relevance_score = JInt 1, d_confidence_score = JInt 0\<rparr>,
                  \<lparr>d_timestamp = ''2024-01-01 00:00:01.500000'', d_content = ''second of two'',
                   d_real_time_factors = JArr [JStr ''a'', JStr ''b''],
                   d_relevance_score = JInt 1, d_confidence_score = JInt 0\<rparr>,
                  \<lparr>d_timestamp = ''2024-01-01 00:00:02.500000'', d_content = ''late'',
                   d_real_time_factors = JArr [JStr ''a'', JStr ''b''],
                   d_relevance_score = JInt 1, d_confidence_score = JInt 0\<rparr>]\<rparr>)"
  by (simp add: sample_defs collector_eval content_eval timestamp_eval quiet_def)

theorem thoughts_sorted_stably_witness:
  "\<exists>pd ths items rs.
     loaded (sample_file ''a.json''
          [sample_thought ''2024-01-01T00:00:02.5Z'' ''late'',
           sample_thought ''2024-01-01T00:00:01.5Z'' ''first of two'',
           sample_thought ''2024-01-01T00:00:01.500000999Z'' ''second of two'']) = Inr pd
     \<and> get_default pd ''thoughts'' (JArr []) = Inr ths \<and> iter ths = Inr items
     \<and> map (collect_thought quiet ''a.json'') items = map Inr rs
     \<and> sorted (map (\<lambda>t. dt_key (timestamp t)) (sort_thoughts [t. Some t \<leftarrow> rs]))
     \<and> (\<forall>k. filter (\<lambda>t. timestamp t = k) (sort_thoughts [t. Some t \<leftarrow> rs])
              = [t. Some t \<leftarrow> rs, timestamp t = k])"
proof -
  from thoughts_sorted_stably [OF sample_sorted_eval] obtain pd ths items rs where
    "loaded (sample_file ''a.json''
          [sample_thought ''2024-01-01T00:00:02.5Z'' ''late'',
           sample_thought ''2024-01-01T00:00:01.5Z'' ''first of two'',
           sample_thought ''2024-01-01T00:00:01.500000999Z'' ''second of two'']) = Inr pd"
    "get_default pd ''thoughts'' (JArr []) = Inr ths" "iter ths = Inr items"
    "map (collect_thought quiet (name (sample_file ''a.json''
          [sample_thought ''2024-01-01T00:00:02.5Z'' ''late'',
           sample_thought ''2024-01-01T00:00:01.5Z'' ''first of two'',
           sample_thought ''2024-01-01T00:00:01.500000999Z'' ''second of two'']))) items
       = map Inr rs"
    "sorted (map (\<lambda>t. dt_key (timestamp t)) (sort_thoughts [t. Some t \<leftarrow> rs]))"
    "\<forall>k. filter (\<lambda>t. timestamp t = k) (sort_thoughts [t. Some t \<leftarrow> rs])
              = [t. Some t \<leftarrow> rs, timestamp t = k]"
    by blast
  then show ?thesis by (simp add: sample_file_def)
qed

section \<open>Which exceptions leave \<open>parse_single_plan\<close>\<close>

lemma parse_single_plan_Inl_iff:
  "parse_single_plan console dir_path parent f = Inl e \<longleftrightarrow>
     (\<exists>e0. parse_single_plan_try console parent f = Inl e0
        \<and> console (Error_processing_file (dir_path @ ''/'' @ name f) e0) = Some e)"
  by (cases "parse_single_plan_try console parent f")
    (auto simp: parse_single_plan_def print_def split: option.splits)

lemma parse_single_plan_returns:
  assumes "\<forall>p e0. console (Error_processing_file p e0) = None"
  shows "\<exists>result. parse_single_plan console dir_path parent f = Inr result"
proof (cases "parse_single_plan console dir_path parent f")
  case (Inl e)
  then show ?thesis using assms by (simp add: parse_single_plan_Inl_iff)
next
  case (Inr result)
  then show ?thesis by blast
qed

lemma process_file_unhandled:
  assumes "\<forall>p e0. console (Error_processing_file p e0) = None"
    and "\<forall>n. console (Processing_file n) = None"
  shows "\<exists>dir_plans'. process_file console dir_path parent f (dir_plans, errs)
           = ((dir_plans', errs), None)"
proof -
  obtain result where "parse_single_plan console dir_path parent f = Inr result"
    using parse_single_plan_returns [OF assms(1)] by blast
  then show ?thesis
    using assms(2) by (cases result) (simp_all add: process_file_def print_def)
qed

lemma process_files_unhandled:
  assumes "\<forall>p e0. console (Error_processing_file p e0) = None"
    and "\<forall>n. console (Processing_file n) = None"
  shows "\<exists>dir_plans'. process_files console dir_path parent files (dir_plans, errs)
           = ((dir_plans', errs), None)"
proof (induction files arbitrary: dir_plans)
  case Nil
  show ?case by simp
next
  case (Cons f files)
  obtain dp where "process_file console dir_path parent f (dir_plans, errs) = ((dp, errs), None)"
    using process_file_unhandled [OF assms] by blast
  then show ?case using Cons.IH [of dp] by simp
qed

lemma process_directory_errors:
  assumes "\<forall>p e0. console (Error_processing_file p e0) = None"
    and "\<forall>n. console (Processing_file n) = None"
  shows "snd (fst (process_directory console base d (all_plans, errs))) = errs"
proof (cases "bind_exn (print console (Processing_directory (dir_name d))) (\<lambda>_.
           bind_exn (glob_json d) (\<lambda>json_files.
           bind_exn (print console (Found_JSON_files (length json_files))) (\<lambda>_.
             Inr json_files)))")
  case (Inl e)
  then show ?thesis by (simp add: process_directory_def)
next
  case (Inr files)
  obtain dp where
    "process_files console (base @ ''/'' @ dir_name d) (dir_name d) files ([], errs)
       = ((dp, errs), None)"
    using process_files_unhandled [OF assms] by blast
  then show ?thesis using Inr by (simp add: process_directory_def)
qed

lemma process_directories_errors:
  assumes "\<forall>p e0. console (Error_processing_file p e0) = None"
    and "\<forall>n. console (Processing_file n) = None"
  shows "snd (fst (process_directories console base ds (all_plans, errs))) = errs"
proof (induction ds arbitrary: all_plans)
  case Nil
  show ?case by simp
next
  case (Cons d ds)
  obtain ap es r where p: "process_directory console base d (all_plans, errs) = ((ap, es), r)"
    by (metis surj_pair)
  have "es = errs" using process_directory_errors [OF assms, of base d all_plans errs] p by simp
  then show ?case using p Cons.IH [of ap] by (cases r) simp_all
qed

lemma parse_all_plans_try_errors:
  assumes "\<forall>p e0. console (Error_processing_file p e0) = None"
    and "\<forall>n. console (Processing_file n) = None"
  shows "snd (fst (parse_all_plans_try console base listing)) = []"
  by (simp add: parse_all_plans_try_def process_directories_errors [OF assms] split: sum.split)

lemma parse_all_plans_try_shape:
  "\<exists>all_plans errs raised. parse_all_plans_try console base listing = ((all_plans, errs), raised)"
  by (metis surj_pair)

text \<open>
  C9, as the code has it. \<open>parse_single_plan\<close> never lets an exception of the body of
  its \<open>try\<close> escape, but its handler prints, and an exception of that \<open>print\<close> leaves
  the function: this is the only way in which \<open>parse_single_plan\<close> raises. When the
  \<open>print\<close> of the handler cannot raise, \<open>parse_single_plan\<close> returns a Plan Document or
  \<open>None\<close> for every file. When moreover the \<open>print\<close> that announces a file cannot
  raise, the loop over the files of a directory never reaches its own handler: it ends
  without an exception and leaves \<open>errors\<close> as it found it, and the \<open>errors\<close> of the
  Full Aggregate are either empty or the single entry made by the handler of the
  directory level.
\<close>

theorem parse_single_plan_raises_only_by_print:
  "(\<forall>e. parse_single_plan console dir_path parent plan_path = Inl e \<longrightarrow>
      (\<exists>e0. parse_single_plan_try console parent plan_path = Inl e0
         \<and> console (Error_processing_file (dir_path @ ''/'' @ name plan_path) e0) = Some e))
   \<and> ((\<forall>p e0. console (Error_processing_file p e0) = None) \<longrightarrow>
      (\<exists>result. parse_single_plan console dir_path parent plan_path = Inr result))
   \<and> ((\<forall>p e0. console (Error_processing_file p e0) = None)
       \<and> (\<forall>n. console (Processing_file n) = None) \<longrightarrow>
      snd (fst (process_files console dir_path parent files (dir_plans, errs))) = errs
      \<and> snd (process_files console dir_path parent files (dir_plans, errs)) = None
      \<and> (errors (fst (parse_all_plans console base now listing)) = []
         \<or> (\<exists>e. errors (fst (parse_all_plans console base now listing)) = [Directory_error e])))"
proof (intro conjI allI impI)
  fix e
  assume "parse_single_plan console dir_path parent plan_path = Inl e"
  then show "\<exists>e0. parse_single_plan_try console parent plan_path = Inl e0
         \<and> console (Error_processing_file (dir_path @ ''/'' @ name plan_path) e0) = Some e"
    by (simp add: parse_single_plan_Inl_iff)
next
  assume "\<forall>p e0. console (Error_processing_file p e0) = None"
  then show "\<exists>result. parse_single_plan console dir_path parent plan_path = Inr result"
    by (rule parse_single_plan_returns)
next
  assume a: "(\<forall>p e0. console (Error_processing_file p e0) = None)
       \<and> (\<forall>n. console (Processing_file n) = None)"
  then obtain dp where
    "process_files console dir_path parent files (dir_plans, errs) = ((dp, errs), None)"
    using process_files_unhandled by blast
  then show "snd (fst (process_files console dir_path parent files (dir_plans, errs))) = errs"
    and "snd (process_files console dir_path parent files (dir_plans, errs)) = None"
    by simp_all
  obtain ap es raised where t: "parse_all_plans_try console base listing = ((ap, es), raised)"
    using parse_all_plans_try_shape by blast
  have "es = []" using parse_all_plans_try_errors [of console base listing] a t by simp
  then have "errors (fst (parse_all_plans console base now listing))
      = (case raised of None \<Rightarrow> [] | Some e \<Rightarrow> [Directory_error e])"
    by (simp add: parse_all_plans_def t Let_def)
  then show "errors (fst (parse_all_plans console base now listing)) = []
      \<or> (\<exists>e. errors (fst (parse_all_plans console base now listing)) = [Directory_error e])"
    by (cases raised) simp_all
qed

theorem parse_single_plan_raises_only_by_print_witness:
  "(\<exists>result. parse_single_plan quiet ''/plans/1'' ''1''
       \<lparr>name = ''a.json'', loaded = Inl JSONDecodeError\<rparr> = Inr result)
   \<and> snd (process_files quiet ''/plans/1'' ''1''
       [\<lparr>name = ''a.json'', loaded = Inl JSONDecodeError\<rparr>] ([], [])) = None
   \<and> (errors (fst (parse_all_plans quiet ''/plans'' ''2026-01-01T00:00:00'' sample_listing)) = []
      \<or> (\<exists>e. errors (fst (parse_all_plans quiet ''/plans'' ''2026-01-01T00:00:00''
            sample_listing)) = [Directory_error e]))"
  using parse_single_plan_raises_only_by_print
    [of quiet "''/plans/1''" "''1''" "\<lparr>name = ''a.json'', loaded = Inl JSONDecodeError\<rparr>"
        "[\<lparr>name = ''a.json'', loaded = Inl JSONDecodeError\<rparr>]" "[]" "[]"
        "''/plans''" "''2026-01-01T00:00:00''" sample_listing]
  by (simp add: quiet_def)

text \<open>
  On a standard output that cannot encode the path of the input directory, a file that
  \<open>json.load\<close> rejects makes \<open>parse_single_plan\<close> raise: the \<open>print\<close> of its handler
  raises \<open>UnicodeEncodeError\<close>. The handler of the loop over the files is reached, its
  own \<open>print\<close> raises as well, and the run ends with a Directory error.
\<close>

theorem unprintable_path_raises:
  "parse_single_plan path_refused ''/plans/1'' ''1''
     \<lparr>name = ''a.json'', loaded = Inl JSONDecodeError\<rparr> = Inl UnicodeEncodeError
   \<and> parse_all_plans path_refused ''/plans'' ''2026-01-01T00:00:00''
       (Inr [sample_dir ''1'' [\<lparr>name = ''a.json'', loaded = Inl JSONDecodeError\<rparr>]]) =
     (\<lparr>plans = [],
       metadata = \<lparr>total_directories = 0, total_plans = 0, base_directory = ''/plans'',
                   processed_at = ''2026-01-01T00:00:00''\<rparr>,
       errors = [Directory_error UnicodeEncodeError]\<rparr>, [])"
  by (simp add: sample_defs collector_eval is_digit_def digits_val_def digit_val_def)

section \<open>What the Full Aggregate holds\<close>

lemma set_update_cases:
  "(a, b) \<in> set (AList.update k v al) \<Longrightarrow> (a, b) = (k, v) \<or> (a, b) \<in> set al"
  by (induction al) (auto split: if_splits)

lemma process_file_cases:
  "(\<exists>e. process_file console dir_path parent f st = (st, Some e))
   \<or> process_file console dir_path parent f st = (st, None)
   \<or> (\<exists>e. process_file console dir_path parent f st
          = ((fst st, snd st @ [Error_processing (dir_path @ ''/'' @ name f) e]), None))
   \<or> (\<exists>doc. console (Processing_file (name f)) = None
          \<and> parse_single_plan console dir_path parent f = Inr (Some doc)
          \<and> process_file console dir_path parent f st
              = ((AList.update (name f) doc (fst st), snd st), None))"
proof (cases "bind_exn (print console (Processing_file (name f)))
                (\<lambda>_. parse_single_plan console dir_path parent f)")
  case (Inl e)
  then show ?thesis
    by (cases "print console (Error_message (Error_processing (dir_path @ ''/'' @ name f) e))")
      (simp_all add: process_file_def)
next
  case (Inr result)
  then have p: "console (Processing_file (name f)) = None"
    and r: "parse_single_plan console dir_path parent f = Inr result"
    by (auto simp: bind_exn_eq_Inr print_Inr_iff)
  show ?thesis
  proof (cases result)
    case None
    then show ?thesis using Inr by (simp add: process_file_def)
  next
    case (Some doc)
    then show ?thesis using Inr p r by (simp add: process_file_def)
  qed
qed

lemma process_file_keys:
  assumes "(k, doc) \<in> set (fst (fst (process_file console dir_path parent f st)))"
  shows "(k, doc) \<in> set (fst st)
     \<or> (name f = k \<and> parse_single_plan console dir_path parent f = Inr (Some doc))"
  using process_file_cases [of console dir_path parent f st] assms
  by (auto dest: set_update_cases)

lemma process_files_keys:
  "(k, doc) \<in> set (fst (fst (process_files console dir_path parent files st))) \<Longrightarrow>
     (k, doc) \<in> set (fst st)
     \<or> (\<exists>f\<in>set files. name f = k \<and> parse_single_plan console dir_path parent f = Inr (Some doc))"
proof (induction files arbitrary: st)
  case Nil
  then show ?case by simp
next
  case (Cons f files)
  obtain st' r where p: "process_file console dir_path parent f st = (st', r)"
    by (metis surj_pair)
  show ?case
  proof (cases r)
    case None
    then have "(k, doc) \<in> set (fst (fst (process_files console dir_path parent files st')))"
      using Cons.prems p by simp
    from Cons.IH [OF this] show ?thesis
    proof
      assume "(k, doc) \<in> set (fst st')"
      then have "(k, doc) \<in> set (fst (fst (process_file console dir_path parent f st)))"
        using p by simp
      from process_file_keys [OF this] show ?thesis by auto
    next
      assume "\<exists>f\<in>set files. name f = k
          \<and> parse_single_plan console dir_path parent f = Inr (Some doc)"
      then show ?thesis by auto
    qed
  next
    case (Some e)
    then have "(k, doc) \<in> set (fst (fst (process_file console dir_path parent f st)))"
      using Cons.prems p by simp
    from process_file_keys [OF this] show ?thesis by auto
  qed
qed

lemma process_directory_cases:
  "(\<exists>errs' e. process_directory console base d st = ((fst st, errs'), Some e))
   \<or> (\<exists>files dir_plans errs'. glob_json d = Inr files
        \<and> console (Processing_directory (dir_name d)) = None
        \<and> process_files console (base @ ''/'' @ dir_name d) (dir_name d) files ([], snd st)
            = ((dir_plans, errs'), None)
        \<and> process_directory console base d st
            = ((if dir_plans \<noteq> [] then AList.update (dir_name d) dir_plans (fst st) else fst st,
                errs'), None))"
proof (cases "bind_exn (print console (Processing_directory (dir_name d))) (\<lambda>_.
           bind_exn (glob_json d) (\<lambda>json_files.
           bind_exn (print console (Found_JSON_files (length json_files))) (\<lambda>_.
             Inr json_files)))")
  case (Inl e)
  then have "process_directory console base d st = ((fst st, snd st), Some e)"
    by (simp add: process_directory_def)
  then show ?thesis by blast
next
  case (Inr files)
  then have g: "glob_json d = Inr files"
    and c: "console (Processing_directory (dir_name d)) = None"
    by (auto simp: bind_exn_eq_Inr print_Inr_iff)
  obtain dir_plans errs' r where
    p: "process_files console (base @ ''/'' @ dir_name d) (dir_name d) files ([], snd st)
          = ((dir_plans, errs'), r)"
    by (metis surj_pair)
  show ?thesis
  proof (cases r)
    case None
    then show ?thesis using Inr g c p by (simp add: process_directory_def)
  next
    case (Some e)
    then show ?thesis using Inr p by (simp add: process_directory_def)
  qed
qed

lemma process_directory_keys:
  assumes "(dn, dp) \<in> set (fst (fst (process_directory console base d st)))"
  shows "(dn, dp) \<in> set (fst st)
     \<or> (\<exists>files errs'. dir_name d = dn \<and> glob_json d = Inr files \<and> dp \<noteq> []
          \<and> process_files console (base @ ''/'' @ dn) dn files ([], snd st)
              = ((dp, errs'), None))"
proof -
  from process_directory_cases [of console base d st] show ?thesis
  proof
    assume "\<exists>errs' e. process_directory console base d st = ((fst st, errs'), Some e)"
    then show ?thesis using assms by auto
  next
    assume "\<exists>files dir_plans errs'. glob_json d = Inr files
        \<and> console (Processing_directory (dir_name d)) = None
        \<and> process_files console (base @ ''/'' @ dir_name d) (dir_name d) files ([], snd st)
            = ((dir_plans, errs'), None)
        \<and> process_directory console base d st
            = ((if dir_plans \<noteq> [] then AList.update (dir_name d) dir_plans (fst st) else fst st,
                errs'), None)"
    then obtain files dir_plans errs' where g: "glob_json d = Inr files"
      and p: "process_files console (base @ ''/'' @ dir_name d) (dir_name d) files ([], snd st)
            = ((dir_plans, errs'), None)"
      and r: "process_directory console base d st
            = ((if dir_plans \<noteq> [] then AList.update (dir_name d) dir_plans (fst st) else fst st,
                errs'), None)"
      by blast
    show ?thesis
    proof (cases "dir_plans = []")
      case True
      then show ?thesis using assms r by simp
    next
      case False
      then have "(dn, dp) \<in> set (AList.update (dir_name d) dir_plans (fst st))"
        using assms r by simp
      then have "(dn, dp) = (dir_name d, dir_plans) \<or> (dn, dp) \<in> set (fst st)"
        by (rule set_update_cases)
      then show ?thesis
      proof
        assume "(dn, dp) = (dir_name d, dir_plans)"
        then have "dir_name d = dn \<and> glob_json d = Inr files \<and> dp \<noteq> []
          \<and> process_files console (base @ ''/'' @ dn) dn files ([], snd st)
              = ((dp, errs'), None)"
          using g p False by simp
        then show ?thesis by blast
      next
        assume "(dn, dp) \<in> set (fst st)"
        then show ?thesis by simp
      qed
    qed
  qed
qed

lemma process_directories_keys:
  "(dn, dp) \<in> set (fst (fst (process_directories console base ds st))) \<Longrightarrow>
     (dn, dp) \<in> set (fst st)
     \<or> (\<exists>d\<in>set ds. \<exists>files errs errs'. dir_name d = dn \<and> glob_json d = Inr files \<and> dp \<noteq> []
          \<and> process_files console (base @ ''/'' @ dn) dn files ([], errs)
              = ((dp, errs'), None))"
proof (induction ds arbitrary: st)
  case Nil
  then show ?case by simp
next
  case (Cons d ds)
  obtain st' r where p: "process_directory console base d st = (st', r)"
    by (metis surj_pair)
  have here: "(dn, dp) \<in> set (fst st') \<Longrightarrow> ?case"
  proof -
    assume "(dn, dp) \<in> set (fst st')"
    then have "(dn, dp) \<in> set (fst (fst (process_directory console base d st)))"
      using p by simp
    from process_directory_keys [OF this] show ?case
    proof
      assume "(dn, dp) \<in> set (fst st)"
      then show ?thesis by simp
    next
      assume "\<exists>files errs'. dir_name d = dn \<and> glob_json d = Inr files \<and> dp \<noteq> []
          \<and> process_files console (base @ ''/'' @ dn) dn files ([], snd st)
              = ((dp, errs'), None)"
      then obtain files errs' where "dir_name d = dn \<and> glob_json d = Inr files \<and> dp \<noteq> []
          \<and> process_files console (base @ ''/'' @ dn) dn files ([], snd st)
              = ((dp, errs'), None)"
        by blast
      then have "\<exists>d'\<in>set (d # ds). \<exists>files errs errs'. dir_name d' = dn
          \<and> glob_json d' = Inr files \<and> dp \<noteq> []
          \<and> process_files console (base @ ''/'' @ dn) dn files ([], errs)
              = ((dp, errs'), None)"
        by (intro bexI [of _ d] exI [of _ files] exI [of _ "snd st"] exI [of _ errs']) simp_all
      then show ?thesis by blast
    qed
  qed
  show ?case
  proof (cases r)
    case None
    then have "(dn, dp) \<in> set (fst (fst (process_directories console base ds st')))"
      using Cons.prems p by simp
    from Cons.IH [OF this] show ?thesis
    proof
      assume "(dn, dp) \<in> set (fst st')"
      then show ?thesis by (rule here)
    next
      assume "\<exists>d\<in>set ds. \<exists>files errs errs'. dir_name d = dn \<and> glob_json d = Inr files
          \<and> dp \<noteq> []
          \<and> process_files console (base @ ''/'' @ dn) dn files ([], errs)
              = ((dp, errs'), None)"
      then show ?thesis by auto
    qed
  next
    case (Some e)
    then have "(dn, dp) \<in> set (fst st')" using Cons.prems p by simp
    then show ?thesis by (rule here)
  qed
qed

lemma select_dirs_set:
  "select_dirs entries = Inr ds \<Longrightarrow> set ds = {d \<in> set entries. is_dir d = Inr True}"
proof (induction entries arbitrary: ds)
  case Nil
  then show ?case by simp
next
  case (Cons a entries)
  from Cons.prems obtain b rest where
    b: "is_dir a = Inr b" and rest: "select_dirs entries = Inr rest"
    and ds: "ds = (if b then a # rest else rest)"
    by (auto simp: bind_exn_eq_Inr)
  have IH: "set rest = {d \<in> set entries. is_dir d = Inr True}"
    by (rule Cons.IH [OF rest])
  show ?case
  proof (cases b)
    case True
    then have "is_dir a = Inr True" "ds = a # rest" using b ds by simp_all
    then show ?thesis using IH by auto
  next
    case False
    then have "is_dir a \<noteq> Inr True" "ds = rest" using b ds by simp_all
    then show ?thesis using IH by auto
  qed
qed

lemma int_keys_snd: "int_keys ds = Inr keyed \<Longrightarrow> map snd keyed = ds"
  by (induction ds arbitrary: keyed) (auto simp: bind_exn_eq_Inr)

lemma sort_directories_set: "sort_directories ds = Inr sorted_ds \<Longrightarrow> set sorted_ds = set ds"
proof -
  assume "sort_directories ds = Inr sorted_ds"
  then obtain keyed where k: "int_keys ds = Inr keyed" and s: "sorted_ds = map snd (sort_key fst keyed)"
    by (auto simp: sort_directories_def bind_exn_eq_Inr)
  have "set sorted_ds = snd ` set keyed" using s by simp
  also have "\<dots> = set (map snd keyed)" by simp
  finally show ?thesis using int_keys_snd [OF k] by simp
qed

lemma parse_all_plans_try_cases:
  "(\<exists>e. parse_all_plans_try console base listing = (([], []), Some e))
   \<or> (\<exists>entries ds directories.
        listing = Inr entries \<and> select_dirs entries = Inr ds
        \<and> sort_directories ds = Inr directories
        \<and> parse_all_plans_try console base listing
            = process_directories console base directories ([], []))"
proof (cases "bind_exn listing (\<lambda>entries. bind_exn (select_dirs entries) (\<lambda>dirs.
                bind_exn (sort_directories dirs) (\<lambda>directories.
                bind_exn (print console (Found_directories (length directories))) (\<lambda>_.
                  Inr directories))))")
  case (Inl e)
  then show ?thesis by (simp add: parse_all_plans_try_def)
next
  case (Inr directories)
  then obtain entries ds where "listing = Inr entries" "select_dirs entries = Inr ds"
    "sort_directories ds = Inr directories"
    by (auto simp: bind_exn_eq_Inr)
  then show ?thesis using Inr by (simp add: parse_all_plans_try_def)
qed

lemma plans_origin:
  assumes "(dname, dir_plans) \<in> set (plans (fst (parse_all_plans console base now listing)))"
  shows "dir_plans \<noteq> []"
    and "(fname, doc) \<in> set dir_plans \<Longrightarrow>
      \<exists>entries d files f.
        listing = Inr entries \<and> d \<in> set entries \<and> is_dir d = Inr True \<and> dir_name d = dname
        \<and> glob_json d = Inr files \<and> f \<in> set files \<and> name f = fname
        \<and> parse_single_plan console (base @ ''/'' @ dname) dname f = Inr (Some doc)"
proof -
  obtain ap errs raised where t: "parse_all_plans_try console base listing = ((ap, errs), raised)"
    using parse_all_plans_try_shape by blast
  then have mem: "(dname, dir_plans) \<in> set ap"
    using assms by (simp add: parse_all_plans_def Let_def)
  then have ne_ap: "ap \<noteq> []" by auto
  from parse_all_plans_try_cases [of console base listing] t ne_ap
  obtain entries ds directories where l: "listing = Inr entries"
    and s: "select_dirs entries = Inr ds" and d: "sort_directories ds = Inr directories"
    and pd: "process_directories console base directories ([], []) = ((ap, errs), raised)"
    by auto
  have sub: "set directories = {d \<in> set entries. is_dir d = Inr True}"
    using select_dirs_set [OF s] sort_directories_set [OF d] by simp
  have "(dname, dir_plans)
      \<in> set (fst (fst (process_directories console base directories ([], []))))"
    using mem pd by simp
  from process_directories_keys [OF this]
  obtain d files errs0 errs1 where d: "d \<in> set directories" "dir_name d = dname"
      "glob_json d = Inr files"
    and ne: "dir_plans \<noteq> []"
    and dp: "process_files console (base @ ''/'' @ dname) dname files ([], errs0)
               = ((dir_plans, errs1), None)"
    by auto
  have d_in: "d \<in> set entries" "is_dir d = Inr True"
    using sub d(1) by auto
  show "dir_plans \<noteq> []" by (rule ne)
  show "\<exists>entries d files f.
        listing = Inr entries \<and> d \<in> set entries \<and> is_dir d = Inr True \<and> dir_name d = dname
        \<and> glob_json d = Inr files \<and> f \<in> set files \<and> name f = fname
        \<and> parse_single_plan console (base @ ''/'' @ dname) dname f = Inr (Some doc)"
    if "(fname, doc) \<in> set dir_plans"
  proof -
    have "(fname, doc) \<in> set (fst (fst (process_files console (base @ ''/'' @ dname) dname
        files ([], errs0))))"
      using that dp by simp
    from process_files_keys [OF this]
    obtain f where f: "f \<in> set files" "name f = fname"
      "parse_single_plan console (base @ ''/'' @ dname) dname f = Inr (Some doc)"
      by auto
    have "listing = Inr entries \<and> d \<in> set entries \<and> is_dir d = Inr True \<and> dir_name d = dname
          \<and> glob_json d = Inr files \<and> f \<in> set files \<and> name f = fname
          \<and> parse_single_plan console (base @ ''/'' @ dname) dname f = Inr (Some doc)"
      using l d d_in f by simp
    then show ?thesis by blast
  qed
qed

text \<open>
  C6. Every key of \<open>plans\<close> in the Full Aggregate is the name of a subdirectory of the
  input whose mapping is not empty, and every key of that mapping is the name of a file
  of that subdirectory for which \<open>parse_single_plan\<close> returned the Plan Document stored
  under it, so a file of which at least one thought survived the loop. A file without
  surviving thoughts gives \<open>None\<close> and is stored nowhere. This holds whatever the
  standard output does, so also for a run that a \<open>print\<close> has ended.
\<close>

theorem aggregate_keys_have_documents:
  assumes "(dname, dir_plans) \<in> set (plans (fst (parse_all_plans console base now listing)))"
  shows "dir_plans \<noteq> [] \<and>
     (\<forall>(fname, doc) \<in> set dir_plans.
        \<exists>entries d files f pd ts.
          listing = Inr entries \<and> d \<in> set entries \<and> is_dir d = Inr True \<and> dir_name d = dname
          \<and> glob_json d = Inr files \<and> f \<in> set files \<and> name f = fname
          \<and> parse_single_plan console (base @ ''/'' @ dname) dname f = Inr (Some doc)
          \<and> surviving_thoughts console f = Inr (pd, ts) \<and> ts \<noteq> [])"
proof (intro conjI ballI)
  show "dir_plans \<noteq> []" using plans_origin(1) [OF assms] .
next
  fix x
  assume x: "x \<in> set dir_plans"
  obtain fname doc where fd: "x = (fname, doc)" by (cases x)
  from plans_origin(2) [OF assms] x fd obtain entries d files f where
    o: "listing = Inr entries \<and> d \<in> set entries \<and> is_dir d = Inr True \<and> dir_name d = dname
        \<and> glob_json d = Inr files \<and> f \<in> set files \<and> name f = fname
        \<and> parse_single_plan console (base @ ''/'' @ dname) dname f = Inr (Some doc)"
    by blast
  then obtain pd ts where s: "surviving_thoughts console f = Inr (pd, ts) \<and> ts \<noteq> []"
    unfolding parse_single_plan_Some_iff by blast
  have "\<exists>entries d files f pd ts.
          listing = Inr entries \<and> d \<in> set entries \<and> is_dir d = Inr True \<and> dir_name d = dname
          \<and> glob_json d = Inr files \<and> f \<in> set files \<and> name f = fname
          \<and> parse_single_plan console (base @ ''/'' @ dname) dname f = Inr (Some doc)
          \<and> surviving_thoughts console f = Inr (pd, ts) \<and> ts \<noteq> []"
    using o s by blast
  then show "case x of (fname, doc) \<Rightarrow>
        \<exists>entries d files f pd ts.
          listing = Inr entries \<and> d \<in> set entries \<and> is_dir d = Inr True \<and> dir_name d = dname
          \<and> glob_json d = Inr files \<and> f \<in> set files \<and> name f = fname
          \<and> parse_single_plan console (base @ ''/'' @ dname) dname f = Inr (Some doc)
          \<and> surviving_thoughts console f = Inr (pd, ts) \<and> ts \<noteq> []"
    using fd by simp
qed

lemma sample_run_eval:
  "parse_all_plans quiet ''/plans'' ''2026-01-01T00:00:00'' sample_listing =
   (\<lparr>plans =
       [(''9'', [(''a.json'',
           \<lparr>plan_id = JStr ''p1'', folder = ''9'', file_name = ''a.json'',
            thoughts = [\<lparr>d_timestamp = ''2024-01-01 00:00:00.500000'', d_content = ''hello'',
                         d_real_time_factors = JArr [JStr ''a'', JStr ''b''],
                         d_relevance_score = JInt 1, d_confidence_score = JInt 0\<rparr>]\<rparr>)]),
        (''10'', [(''c.json'',
           \<lparr>plan_id = JStr ''p1'', folder = ''10'', file_name = ''c.json'',
            thoughts = [\<lparr>d_timestamp = ''2024-01-01 00:00:03.500000'', d_content = ''later'',
                         d_real_time_factors = JArr [JStr ''a'', JStr ''b''],
                         d_relevance_score = JInt 1, d_confidence_score = JInt 0\<rparr>]\<rparr>)])],
     metadata = \<lparr>total_directories = 2, total_plans = 2, base_directory = ''/plans'',
                 processed_at = ''2026-01-01T00:00:00''\<rparr>,
     errors = []\<rparr>,
    [\<lparr>short_c = ''hello'', short_r = JArr [JStr ''a'', JStr ''b'']\<rparr>,
     \<lparr>short_c = ''later'', short_r = JArr [JStr ''a'', JStr ''b'']\<rparr>])"
  by (simp add: sample_defs quiet_def collector_eval content_eval timestamp_eval)

theorem aggregate_keys_have_documents_witness:
  "\<exists>dir_plans.
     map_of (plans (fst (parse_all_plans quiet ''/plans'' ''2026-01-01T00:00:00''
       sample_listing))) ''9'' = Some dir_plans
     \<and> dir_plans \<noteq> []
     \<and> (\<forall>(fname, doc) \<in> set dir_plans.
          \<exists>entries d files f pd ts.
            sample_listing = Inr entries \<and> d \<in> set entries \<and> is_dir d = Inr True
            \<and> dir_name d = ''9'' \<and> glob_json d = Inr files \<and> f \<in> set files \<and> name f = fname
            \<and> parse_single_plan quiet (''/plans'' @ ''/'' @ ''9'') ''9'' f = Inr (Some doc)
            \<and> surviving_thoughts quiet f = Inr (pd, ts) \<and> ts \<noteq> [])"
proof -
  let ?dp = "[(''a.json'',
           \<lparr>plan_id = JStr ''p1'', folder = ''9'', file_name = ''a.json'',
            thoughts = [\<lparr>d_timestamp = ''2024-01-01 00:00:00.500000'', d_content = ''hello'',
                         d_real_time_factors = JArr [JStr ''a'', JStr ''b''],
                         d_relevance_score = JInt 1, d_confidence_score = JInt 0\<rparr>]\<rparr>)]"
  have m: "(''9'', ?dp)
      \<in> set (plans (fst (parse_all_plans quiet ''/plans'' ''2026-01-01T00:00:00''
          sample_listing)))"
    by (simp add: sample_run_eval)
  have l: "map_of (plans (fst (parse_all_plans quiet ''/plans'' ''2026-01-01T00:00:00''
      sample_listing))) ''9'' = Some ?dp"
    by (simp add: sample_run_eval)
  from aggregate_keys_have_documents [OF m] l show ?thesis by blast
qed

section \<open>Membership in the two aggregates\<close>











text \<open>
  In a directory whose file names are different, a file of which no thought survives
  is not a key of the mapping of that directory.
\<close>

lemma file_without_survivors_not_a_key:
  assumes "distinct (map name files)" and "f \<in> set files"
    and "surviving_thoughts console f = Inr (pd, [])"
  shows "map_of (fst (fst (process_files console dir_path parent files ([], errs)))) (name f)
           = None"
proof (rule ccontr)
  assume "map_of (fst (fst (process_files console dir_path parent files ([], errs)))) (name f)
           \<noteq> None"
  then obtain doc where
    "map_of (fst (fst (process_files console dir_path parent files ([], errs)))) (name f)
       = Some doc"
    by blast
  then have "(name f, doc)
      \<in> set (fst (fst (process_files console dir_path parent files ([], errs))))"
    by (rule map_of_SomeD)
  from process_files_keys [OF this] obtain g where g: "g \<in> set files" "name g = name f"
    "parse_single_plan console dir_path parent g = Inr (Some doc)"
    by auto
  have "inj_on name (set files)" using assms(1) by (simp add: distinct_map)
  then have "g = f" using g(1,2) assms(2) by (auto dest: inj_onD)
  then show False using g(3) assms(3) unfolding parse_single_plan_Some_iff by auto
qed






lemma thought_entry_content: "d_content (thought_entry a) = content a"
  by (simp add: thought_entry_def)







section \<open>The Frequency Analyzer\<close>

lemmas analyzer_eval =
  analyze_file_def short_aggregate_json_def incr_def save_results_def sorted_reverse_def
  dict_of_def strip_def is_space_def

lemma update_fresh: "k \<notin> fst ` set al \<Longrightarrow> AList.update k v al = al @ [(k, v)]"
  by (induction al) auto

lemma update_tabulated:
  "k \<in> set ks \<Longrightarrow> distinct ks \<Longrightarrow>
     AList.update k v (map (\<lambda>x. (x, g x)) ks) = map (\<lambda>x. (x, if x = k then v else g x)) ks"
  by (induction ks) auto

lemma map_of_tabulated:
  "map_of (map (\<lambda>x. (x, g x)) ks) k = (if k \<in> set ks then Some (g k) else None)"
  by (induction ks) auto

lemma incr_tabulated:
  assumes "distinct ks"
  shows "incr k (map (\<lambda>x. (x, g x)) ks) =
           (if k \<in> set ks then map (\<lambda>x. (x, if x = k then g k + 1 else g x)) ks
            else map (\<lambda>x. (x, g x)) ks @ [(k, 1)])"
proof (cases "k \<in> set ks")
  case True
  then show ?thesis
    using assms by (simp add: incr_def map_of_tabulated update_tabulated)
next
  case False
  then have "k \<notin> fst ` set (map (\<lambda>x. (x, g x)) ks)" by (auto simp: image_iff)
  then show ?thesis
    using False by (simp add: incr_def map_of_tabulated update_fresh)
qed

lemma counter_fold:
  "foldl (\<lambda>c k. incr k c) [] xs = map (\<lambda>k. (k, count_list xs k)) (rev (remdups (rev xs)))"
proof (induction xs rule: rev_induct)
  case Nil
  show ?case by simp
next
  case (snoc x xs)
  let ?F = "rev (remdups (rev xs))"
  have d: "distinct ?F" by simp
  have s: "set ?F = set xs" by simp
  have step: "foldl (\<lambda>c k. incr k c) [] (xs @ [x])
      = incr x (map (\<lambda>k. (k, count_list xs k)) ?F)"
    using snoc.IH by simp
  show ?case
  proof (cases "x \<in> set xs")
    case True
    then have F: "rev (remdups (rev (xs @ [x]))) = ?F" by simp
    have "incr x (map (\<lambda>k. (k, count_list xs k)) ?F)
        = map (\<lambda>k. (k, if k = x then count_list xs x + 1 else count_list xs k)) ?F"
      using incr_tabulated [OF d, of x "count_list xs"] True s by simp
    also have "\<dots> = map (\<lambda>k. (k, count_list (xs @ [x]) k)) ?F"
      by (rule map_cong) auto
    finally show ?thesis using step F by simp
  next
    case False
    then have F: "rev (remdups (rev (xs @ [x]))) = ?F @ [x]" by simp
    have z: "count_list xs x = 0" using False by (simp add: count_list_0_iff)
    have e1: "incr x (map (\<lambda>k. (k, count_list xs k)) ?F)
        = map (\<lambda>k. (k, count_list xs k)) ?F @ [(x, 1)]"
      using incr_tabulated [OF d, of x "count_list xs"] False s by simp
    have e2: "map (\<lambda>k. (k, count_list (xs @ [x]) k)) ?F = map (\<lambda>k. (k, count_list xs k)) ?F"
      using False s by (intro map_cong) auto
    have "map (\<lambda>k. (k, count_list (xs @ [x]) k)) (?F @ [x])
        = map (\<lambda>k. (k, count_list xs k)) ?F @ [(x, 1)]"
      using e2 z by simp
    then show ?thesis using step F e1 by simp
  qed
qed

lemma count_factors_strings:
  "count_factors (map JStr fs) fc = Inr (foldl (\<lambda>c k. incr k c) fc (map strip fs))"
  by (induction fs arbitrary: fc) simp_all

lemma count_thoughts_records:
  "map short_r condensed = map (\<lambda>fs. JArr (map JStr fs)) factors \<Longrightarrow>
     count_thoughts (map (\<lambda>x. JObj [(''c'', JStr (short_c x)), (''r'', short_r x)]) condensed)
       (cc, fc) =
     Inr (foldl (\<lambda>c k. incr k c) cc (map (\<lambda>x. strip (short_c x)) condensed),
          foldl (\<lambda>c k. incr k c) fc (map strip (concat factors)))"
proof (induction condensed arbitrary: factors cc fc)
  case Nil
  then show ?case by simp
next
  case (Cons x condensed)
  then obtain fs rest where f: "factors = fs # rest" and r: "short_r x = JArr (map JStr fs)"
    and m: "map short_r condensed = map (\<lambda>fs. JArr (map JStr fs)) rest"
    by (cases factors) auto
  show ?case
    using Cons.IH [OF m] r f by (simp add: count_factors_strings)
qed

lemma dict_of_distinct:
  assumes "distinct (map fst pairs)"
  shows "dict_of pairs = pairs"
proof -
  have "distinct (map fst (acc @ ps)) \<Longrightarrow>
      foldl (\<lambda>d kv. AList.update (fst kv) (snd kv) d) acc ps = acc @ ps" for acc ps :: "('a \<times> 'b) list"
  proof (induction ps arbitrary: acc)
    case Nil
    show ?case by simp
  next
    case (Cons p ps)
    have "fst p \<notin> fst ` set acc" using Cons.prems by auto
    then have "AList.update (fst p) (snd p) acc = acc @ [p]"
      by (simp add: update_fresh)
    then show ?case using Cons.IH [of "acc @ [p]"] Cons.prems by simp
  qed
  from this [of "[]" pairs] assms show ?thesis by (simp add: dict_of_def)
qed

lemma sorted_reverse_set [simp]: "set (sorted_reverse key xs) = set xs"
  by (simp add: sorted_reverse_def)

lemma sorted_reverse_distinct:
  "distinct (map f xs) \<Longrightarrow> distinct (map f (sorted_reverse key xs))"
  by (simp add: sorted_reverse_def distinct_map rev_map)

lemma sorted_reverse_descending: "sorted (rev (map key (sorted_reverse key xs)))"
  by (simp add: sorted_reverse_def rev_map)

lemma sorted_reverse_stable:
  "filter (\<lambda>y. key y = n) (sorted_reverse key xs) = filter (\<lambda>y. key y = n) xs"
proof -
  have "filter (\<lambda>y. key y = n) (sorted_reverse key xs)
      = rev (filter (\<lambda>y. key y = n) (sort_key key (rev xs)))"
    by (simp add: sorted_reverse_def rev_filter)
  also have "\<dots> = rev (filter (\<lambda>y. key y = n) (rev xs))"
    by (simp only: sort_key_stable)
  also have "\<dots> = filter (\<lambda>y. key y = n) xs"
    by (simp add: rev_filter)
  finally show ?thesis .
qed

lemma report_of_stream:
  fixes xs :: "string list"
  defines "report \<equiv> dict_of (sorted_reverse snd (foldl (\<lambda>c k. incr k c) [] xs))"
  shows "map_of report k = (if count_list xs k = 0 then None else Some (count_list xs k))"
    and "distinct (map fst report)"
    and "sorted (rev (map snd report))"
    and "map fst (filter (\<lambda>kv. snd kv = n) report)
           = filter (\<lambda>k. count_list xs k = n) (rev (remdups (rev xs)))"
proof -
  let ?F = "rev (remdups (rev xs))"
  let ?items = "map (\<lambda>k. (k, count_list xs k)) ?F"
  have items: "foldl (\<lambda>c k. incr k c) [] xs = ?items" by (rule counter_fold)
  have di: "distinct (map fst ?items)" by (simp add: comp_def)
  have ds: "distinct (map fst (sorted_reverse snd ?items))"
    using di by (rule sorted_reverse_distinct)
  have r: "report = sorted_reverse snd ?items"
    unfolding report_def items using ds by (rule dict_of_distinct)
  show "distinct (map fst report)" using ds r by simp
  show "sorted (rev (map snd report))" unfolding r by (rule sorted_reverse_descending)
  have "map_of report = map_of ?items"
    unfolding r using ds di by (simp add: map_of_inject_set)
  then show "map_of report k = (if count_list xs k = 0 then None else Some (count_list xs k))"
    by (simp add: map_of_tabulated count_list_0_iff)
  have "filter (\<lambda>kv. snd kv = n) report = filter (\<lambda>kv. snd kv = n) ?items"
    unfolding r by (rule sorted_reverse_stable)
  then show "map fst (filter (\<lambda>kv. snd kv = n) report)
           = filter (\<lambda>k. count_list xs k = n) ?F"
    by (simp add: filter_map comp_def)
qed

lemma analyze_file_records:
  assumes "map short_r condensed = map (\<lambda>fs. JArr (map JStr fs)) factors"
  shows "analyze_file (Inr (short_aggregate_json condensed)) =
     Inr (foldl (\<lambda>c k. incr k c) [] (map (\<lambda>x. strip (short_c x)) condensed),
          foldl (\<lambda>c k. incr k c) [] (map strip (concat factors)))"
  using count_thoughts_records [OF assms]
  by (simp add: analyze_file_def short_aggregate_json_def)

lemma count_list_map_filter:
  "count_list (map f xs) k = length (filter (\<lambda>x. f x = k) xs)"
  by (induction xs) auto

lemma count_list_stream:
  "count_list (map strip (concat factors)) k
     = sum_list (map (\<lambda>fs. count_list (map strip fs) k) factors)"
  by (induction factors) auto

text \<open>
  C7. Let the Short Aggregate be a list of Short Records whose factor lists are lists
  of strings. Then \<open>analyze_file\<close> ends without an exception, and in the report that
  \<open>save_results\<close> writes the count of a content string is the number of records with
  exactly that stripped content, the count of a factor string is the sum over all
  records of the occurrences of that stripped factor in the record's list, and a string
  that does not occur has no entry. Each mapping has every key once and is ordered by
  non-increasing count; the keys with one and the same count stand in the order in which
  they were first seen by the counting pass.
\<close>

theorem frequency_report_counts:
  assumes "map short_r condensed = map (\<lambda>fs. JArr (map JStr fs)) factors"
  shows "\<exists>counters.
     analyze_file (Inr (short_aggregate_json condensed)) = Inr counters
     \<and> (\<forall>k. map_of (content_counts (save_results counters)) k =
           (if length (filter (\<lambda>x. strip (short_c x) = k) condensed) = 0 then None
            else Some (length (filter (\<lambda>x. strip (short_c x) = k) condensed))))
     \<and> (\<forall>k. map_of (factor_counts (save_results counters)) k =
           (if (\<Sum>fs\<leftarrow>factors. count_list (map strip fs) k) = 0 then None
            else Some (\<Sum>fs\<leftarrow>factors. count_list (map strip fs) k)))
     \<and> distinct (map fst (content_counts (save_results counters)))
     \<and> distinct (map fst (factor_counts (save_results counters)))
     \<and> sorted (rev (map snd (content_counts (save_results counters))))
     \<and> sorted (rev (map snd (factor_counts (save_results counters))))
     \<and> (\<forall>n. map fst (filter (\<lambda>kv. snd kv = n) (content_counts (save_results counters))) =
           filter (\<lambda>k. length (filter (\<lambda>x. strip (short_c x) = k) condensed) = n)
             (rev (remdups (rev (map (\<lambda>x. strip (short_c x)) condensed)))))
     \<and> (\<forall>n. map fst (filter (\<lambda>kv. snd kv = n) (factor_counts (save_results counters))) =
           filter (\<lambda>k. (\<Sum>fs\<leftarrow>factors. count_list (map strip fs) k) = n)
             (rev (remdups (rev (map strip (concat factors))))))"
proof -
  let ?cs = "map (\<lambda>x. strip (short_c x)) condensed"
  let ?fs = "map strip (concat factors)"
  let ?counters = "(foldl (\<lambda>c k. incr k c) [] ?cs, foldl (\<lambda>c k. incr k c) [] ?fs)"
  have a: "analyze_file (Inr (short_aggregate_json condensed)) = Inr ?counters"
    by (rule analyze_file_records [OF assms])
  have cc: "content_counts (save_results ?counters)
      = dict_of (sorted_reverse snd (foldl (\<lambda>c k. incr k c) [] ?cs))"
    by (simp add: save_results_def)
  have fc: "factor_counts (save_results ?counters)
      = dict_of (sorted_reverse snd (foldl (\<lambda>c k. incr k c) [] ?fs))"
    by (simp add: save_results_def)
  have c1: "count_list ?cs k = length (filter (\<lambda>x. strip (short_c x) = k) condensed)" for k
    by (rule count_list_map_filter)
  have c2: "count_list ?fs k = (\<Sum>fs\<leftarrow>factors. count_list (map strip fs) k)" for k
    by (rule count_list_stream)
  have p1: "\<forall>k. map_of (content_counts (save_results ?counters)) k =
           (if length (filter (\<lambda>x. strip (short_c x) = k) condensed) = 0 then None
            else Some (length (filter (\<lambda>x. strip (short_c x) = k) condensed)))"
    unfolding cc using report_of_stream(1) [of ?cs] by (simp only: c1) simp
  have p2: "\<forall>k. map_of (factor_counts (save_results ?counters)) k =
           (if (\<Sum>fs\<leftarrow>factors. count_list (map strip fs) k) = 0 then None
            else Some (\<Sum>fs\<leftarrow>factors. count_list (map strip fs) k))"
    unfolding fc using report_of_stream(1) [of ?fs] by (simp only: c2) simp
  have p3: "distinct (map fst (content_counts (save_results ?counters)))"
    unfolding cc by (rule report_of_stream(2))
  have p4: "distinct (map fst (factor_counts (save_results ?counters)))"
    unfolding fc by (rule report_of_stream(2))
  have p5: "sorted (rev (map snd (content_counts (save_results ?counters))))"
    unfolding cc by (rule report_of_stream(3))
  have p6: "sorted (rev (map snd (factor_counts (save_results ?counters))))"
    unfolding fc by (rule report_of_stream(3))
  have p7: "\<forall>n. map fst (filter (\<lambda>kv. snd kv = n) (content_counts (save_results ?counters))) =
           filter (\<lambda>k. length (filter (\<lambda>x. strip (short_c x) = k) condensed) = n)
             (rev (remdups (rev ?cs)))"
    unfolding cc using report_of_stream(4) [of _ ?cs] by (simp only: c1) simp
  have p8: "\<forall>n. map fst (filter (\<lambda>kv. snd kv = n) (factor_counts (save_results ?counters))) =
           filter (\<lambda>k. (\<Sum>fs\<leftarrow>factors. count_list (map strip fs) k) = n)
             (rev (remdups (rev ?fs)))"
    unfolding fc using report_of_stream(4) [of _ ?fs] by (simp only: c2) simp
  show ?thesis
    by (rule exI [of _ ?counters]) (intro conjI a p1 p2 p3 p4 p5 p6 p7 p8)
qed

theorem frequency_report_counts_witness:
  "\<exists>counters.
     analyze_file (Inr (short_aggregate_json
       [\<lparr>short_c = '' hello'', short_r = JArr [JStr ''a'', JStr ''b '']\<rparr>,
        \<lparr>short_c = ''later'', short_r = JArr [JStr ''b'']\<rparr>,
        \<lparr>short_c = ''hello'', short_r = JArr []\<rparr>])) = Inr counters
     \<and> map_of (content_counts (save_results counters)) ''hello'' = Some 2
     \<and> map_of (factor_counts (save_results counters)) ''b'' = Some 2
     \<and> map_of (factor_counts (save_results counters)) ''c'' = None
     \<and> sorted (rev (map snd (factor_counts (save_results counters))))"
proof -
  let ?C = "[\<lparr>short_c = '' hello'', short_r = JArr [JStr ''a'', JStr ''b '']\<rparr>,
        \<lparr>short_c = ''later'', short_r = JArr [JStr ''b'']\<rparr>,
        \<lparr>short_c = ''hello'', short_r = JArr []\<rparr>]"
  let ?F = "[[''a'', ''b ''], [''b''], []]"
  have h: "map short_r ?C = map (\<lambda>fs. JArr (map JStr fs)) ?F" by simp
  from frequency_report_counts [OF h] obtain counters where
    a: "analyze_file (Inr (short_aggregate_json ?C)) = Inr counters"
    and p1: "\<forall>k. map_of (content_counts (save_results counters)) k =
           (if length (filter (\<lambda>x. strip (short_c x) = k) ?C) = 0 then None
            else Some (length (filter (\<lambda>x. strip (short_c x) = k) ?C)))"
    and p2: "\<forall>k. map_of (factor_counts (save_results counters)) k =
           (if (\<Sum>fs\<leftarrow>?F. count_list (map strip fs) k) = 0 then None
            else Some (\<Sum>fs\<leftarrow>?F. count_list (map strip fs) k))"
    and p6: "sorted (rev (map snd (factor_counts (save_results counters))))"
    by (elim exE conjE)
  have "map_of (content_counts (save_results counters)) ''hello'' = Some 2"
    using p1 by (simp add: strip_def is_space_def)
  moreover have "map_of (factor_counts (save_results counters)) ''b'' = Some 2"
    using p2 by (simp add: strip_def is_space_def)
  moreover have "map_of (factor_counts (save_results counters)) ''c'' = None"
    using p2 by (simp add: strip_def is_space_def)
  ultimately show ?thesis using a p6 by blast
qed

lemma witness_report:
  "map_sum id save_results (analyze_file (Inr (short_aggregate_json
       [\<lparr>short_c = '' hello'', short_r = JArr [JStr ''a'', JStr ''b '']\<rparr>,
        \<lparr>short_c = ''later'', short_r = JArr [JStr ''b'']\<rparr>,
        \<lparr>short_c = ''hello'', short_r = JArr []\<rparr>]))) =
   Inr \<lparr>content_counts = [(''hello'', 2), (''later'', 1)],
        factor_counts = [(''b'', 2), (''a'', 1)]\<rparr>"
  by (simp add: analyzer_eval)

section \<open>The scenario of the specification\<close>

text \<open>
  C8. The directory \<open>1\<close> holds one file with two observations: \<open>" hello "\<close> with a
  timestamp of nanosecond precision, and \<open>"plan_x"\<close>. Whatever the name of the file
  and the four scores are, on a standard output that takes every line, the Full Aggregate holds exactly one observation, with
  content \<open>hello\<close>, under that directory and file; the Short Aggregate is the single
  record of \<open>hello\<close> with the factors \<open>a\<close> and \<open>b\<close>; and the Analyzer, run on that
  Short Aggregate, counts \<open>hello\<close> once and \<open>a\<close> and \<open>b\<close> once each.
\<close>

theorem spec_scenario:
  "parse_all_plans quiet base now
     (Inr [\<lparr>dir_name = ''1'', is_dir = Inr True, glob_json = Inr
        [\<lparr>name = file, loaded = Inr (JObj [(''thoughts'', JArr
           [JObj [(''timestamp'', JStr ''2024-01-01T00:00:00.123456789Z''),
                  (''content'', JStr '' hello ''),
                  (''real_time_factors'', JArr [JStr ''a'', JStr ''b'']),
                  (''relevance_score'', JFloat r1), (''confidence_score'', JFloat c1)],
            JObj [(''timestamp'', JStr ''2024-01-01T00:00:01Z''),
                  (''content'', JStr ''plan_x''),
                  (''real_time_factors'', JArr [JStr ''a'']),
                  (''relevance_score'', JFloat r2), (''confidence_score'', JFloat c2)]])])\<rparr>]\<rparr>])
   = (\<lparr>plans = [(''1'', [(file,
          \<lparr>plan_id = JNull, folder = ''1'', file_name = file,
           thoughts = [\<lparr>d_timestamp = ''2024-01-01 00:00:00.123456'', d_content = ''hello'',
                        d_real_time_factors = JArr [JStr ''a'', JStr ''b''],
                        d_relevance_score = JFloat r1, d_confidence_score = JFloat c1\<rparr>]\<rparr>)])],
       metadata = \<lparr>total_directories = 1, total_plans = 1, base_directory = base,
                   processed_at = now\<rparr>,
       errors = []\<rparr>,
      [\<lparr>short_c = ''hello'', short_r = JArr [JStr ''a'', JStr ''b'']\<rparr>])
   \<and> analyze_file (Inr (short_aggregate_json
         [\<lparr>short_c = ''hello'', short_r = JArr [JStr ''a'', JStr ''b'']\<rparr>]))
       = Inr ([(''hello'', 1)], [(''a'', 1), (''b'', 1)])
   \<and> save_results ([(''hello'', 1)], [(''a'', 1), (''b'', 1)])
       = \<lparr>content_counts = [(''hello'', 1)], factor_counts = [(''a'', 1), (''b'', 1)]\<rparr>"
  by (simp add: quiet_def collector_eval content_eval timestamp_eval analyzer_eval is_digit_def)

end
